theory Spec2Isabelle
  imports Complex_Main "HOL-Library.Word" "HOL-Library.Multiset"
begin

unbundle bit_operations_syntax

section \<open>Data model\<close>

text \<open>
  The extractor \<^verbatim>\<open>BiliBiliIE._real_extract\<close> of
  \<^verbatim>\<open>youtube_dl/extractor/bilibili.py\<close> builds Python dictionaries and raises Python
  exceptions. A text is a \<open>string\<close>, one \<open>char\<close> per character (characters with a code
  below 256); an exception is a value of \<open>error\<close>; a dictionary is an association list in
  insertion order with unique keys.
\<close>

datatype error =
    AssertionError
  | RegexNotFoundError string
  | KeyError string
  | IndexError
  | TypeError
  | HostError string

datatype pyval =
    PNone
  | PInt int
  | PFloat rat
  | PStr string
  | PList "pyval list"
  | PDict "(string \<times> pyval) list"

type_synonym dict = "(string \<times> pyval) list"

text \<open>\<^verbatim>\<open>d.get(k)\<close>: the value stored under \<open>k\<close>, if any.\<close>

definition dict_get :: "dict \<Rightarrow> string \<Rightarrow> pyval option" where
  "dict_get d k = map_of d k"

text \<open>\<^verbatim>\<open>d[k] = v\<close>: an existing key keeps its place, a new key goes last.\<close>

fun dict_set :: "string \<Rightarrow> pyval \<Rightarrow> dict \<Rightarrow> dict" where
  "dict_set k v [] = [(k, v)]"
| "dict_set k v ((k', v') # d) =
     (if k' = k then (k, v) # d else (k', v') # dict_set k v d)"

text \<open>\<^verbatim>\<open>d.update(e)\<close>: every item of \<open>e\<close> is stored into \<open>d\<close>, in the order of \<open>e\<close>.\<close>

fun dict_update :: "dict \<Rightarrow> dict \<Rightarrow> dict" where
  "dict_update d [] = d"
| "dict_update d ((k, v) # e) = dict_update (dict_set k v d) e"

text \<open>
  A field of a JSON object of the stream API: the key may be missing, or hold \<^verbatim>\<open>null\<close>,
  or hold a value of the type the API documents for it.
\<close>

datatype 'a field = Absent | Null | Val 'a

record durl_record =
  durl_url :: "string field"
  durl_size :: "int field"
  durl_length :: "int field"
  durl_backup_url :: "string list field"

record video_info =
  vi_durl :: "durl_record list field"
  vi_timelength :: "int field"

text \<open>\<^verbatim>\<open>obj[key]\<close> on a JSON object: \<^verbatim>\<open>KeyError\<close> when the key is missing;
  \<^verbatim>\<open>null\<close> is Python's \<^verbatim>\<open>None\<close>.\<close>

fun subscript :: "string \<Rightarrow> 'a field \<Rightarrow> error + 'a option" where
  "subscript k Absent = Inl (KeyError k)"
| "subscript k Null = Inr None"
| "subscript k (Val v) = Inr (Some v)"

text \<open>\<^verbatim>\<open>obj.get(key)\<close> on a JSON object: \<^verbatim>\<open>None\<close> when the key is missing.\<close>

fun get_field :: "'a field \<Rightarrow> 'a option" where
  "get_field Absent = None"
| "get_field Null = None"
| "get_field (Val v) = Some v"

section \<open>Python string operations\<close>

text \<open>\<^verbatim>\<open>'%s' % n\<close> and \<^verbatim>\<open>'%d' % n\<close> for a non-negative integer: its decimal digits.\<close>

definition digit_char :: "nat \<Rightarrow> char" where
  "digit_char d = ''0123456789'' ! d"

fun str_of_nat :: "nat \<Rightarrow> string" where
  "str_of_nat n = (if n < 10 then [digit_char n] else str_of_nat (n div 10) @ [digit_char (n mod 10)])"

declare str_of_nat.simps [simp del]

text \<open>\<^verbatim>\<open>sub in s\<close> on strings: \<open>sub\<close> occurs somewhere in \<open>s\<close>.\<close>

fun contains :: "string \<Rightarrow> string \<Rightarrow> bool" where
  "contains sub [] = (sub = [])"
| "contains sub (c # s) = (take (length sub) (c # s) = sub \<or> contains sub s)"

section \<open>FormatResolver: lines 105 to 114\<close>

text \<open>
  Modelled from the spec: \<^verbatim>\<open>int_or_none\<close> of \<^verbatim>\<open>youtube_dl/utils.py\<close> is missing
  from the sources; the spec calls it a numeric coercion helper tolerant of missing input.
\<close>

fun int_or_none :: "int option \<Rightarrow> pyval" where
  "int_or_none None = PNone"
| "int_or_none (Some n) = PInt n"

text \<open>
  Modelled from the spec: \<^verbatim>\<open>float_or_none\<close> of \<^verbatim>\<open>youtube_dl/utils.py\<close> is missing
  from the sources; the spec gives the value divided by the scale when it is present and unset
  otherwise. The quotient is exact (a rational), rounding of floating point is not modelled.
\<close>

fun float_or_none :: "int option \<Rightarrow> int \<Rightarrow> pyval" where
  "float_or_none None scale = PNone"
| "float_or_none (Some n) scale = PFloat (of_int n / of_int scale)"

definition backup_format :: "string \<Rightarrow> dict" where
  "backup_format backup_url =
     [(''url'', PStr backup_url),
      (''preference'', PInt (if contains ''hd.mp4'' backup_url then - 2 else - 3))]"

text \<open>
  The dictionary literal of line 105 evaluates \<^verbatim>\<open>durl['url']\<close>, then
  \<^verbatim>\<open>durl['size']\<close>; the loop of line 109 then evaluates \<^verbatim>\<open>durl['backup_url']\<close>,
  and iterating over \<^verbatim>\<open>None\<close> raises \<^verbatim>\<open>TypeError\<close>.
\<close>

definition str_or_none :: "string option \<Rightarrow> pyval" where
  "str_or_none s = (case s of None \<Rightarrow> PNone | Some t \<Rightarrow> PStr t)"

definition durl_formats :: "durl_record \<Rightarrow> error + dict list" where
  "durl_formats durl =
     (case subscript ''url'' (durl_url durl) of
        Inl e \<Rightarrow> Inl e
      | Inr u \<Rightarrow>
     (case subscript ''size'' (durl_size durl) of
        Inl e \<Rightarrow> Inl e
      | Inr sz \<Rightarrow>
     (case subscript ''backup_url'' (durl_backup_url durl) of
        Inl e \<Rightarrow> Inl e
      | Inr None \<Rightarrow> Inl TypeError
      | Inr (Some backups) \<Rightarrow>
          Inr ([(''url'', str_or_none u), (''filesize'', int_or_none sz)]
               # map backup_format backups))))"

section \<open>Regular expressions\<close>

text \<open>
  The patterns of the extractor use literals, an optional character, an alternative of
  literals, the greedy repetitions \<^verbatim>\<open>+\<close> and \<^verbatim>\<open>*\<close> of a character class, and
  groups. \<open>rmatch\<close> is the backtracking matcher of Python's \<^verbatim>\<open>re\<close> on these: a
  repetition first takes as many characters as it can and gives them back one at a time,
  and the first way to match the whole pattern wins. The result is the list of the texts
  of the groups, in the order of their opening.
\<close>

datatype cls = NotChar char | Space | Digit

text \<open>\<^verbatim>\<open>\s\<close> and \<^verbatim>\<open>\d\<close> as Python 3 reads them in a text pattern.\<close>

fun in_cls :: "cls \<Rightarrow> char \<Rightarrow> bool" where
  "in_cls (NotChar x) c = (c \<noteq> x)"
| "in_cls Space c =
     (let n = (of_char c :: nat)
      in (9 \<le> n \<and> n \<le> 13) \<or> (28 \<le> n \<and> n \<le> 32) \<or> n = 133 \<or> n = 160)"
| "in_cls Digit c = (let n = (of_char c :: nat) in 48 \<le> n \<and> n \<le> 57)"

datatype atom =
    Lit string
  | Opt char
  | Alts "string list"
  | Plus cls
  | Star cls
  | Open
  | Close

definition starts_with :: "string \<Rightarrow> string \<Rightarrow> bool" where
  "starts_with l s = (take (length l) s = l)"

text \<open>The text of the open group, if one is open, grows by what is consumed.\<close>

definition consume :: "string option \<Rightarrow> string \<Rightarrow> string option" where
  "consume cur t = (case cur of None \<Rightarrow> None | Some u \<Rightarrow> Some (u @ t))"

text \<open>The measure of a pattern; an alternative weighs what is left of it to try.\<close>

fun atom_weight :: "atom \<Rightarrow> nat" where
  "atom_weight (Alts ls) = Suc (length ls)"
| "atom_weight a = 1"

function (sequential) rmatch :: "atom list \<Rightarrow> string \<Rightarrow> string option \<Rightarrow> string list \<Rightarrow> string list option"
  and rback :: "atom list \<Rightarrow> nat \<Rightarrow> nat \<Rightarrow> string \<Rightarrow> string option \<Rightarrow> string list
                  \<Rightarrow> string list option" where
  "rmatch [] s cur caps = Some caps"
| "rmatch (Lit l # as) s cur caps =
     (if starts_with l s then rmatch as (drop (length l) s) (consume cur l) caps else None)"
| "rmatch (Opt c # as) s cur caps =
     (case (if starts_with [c] s then rmatch as (drop 1 s) (consume cur [c]) caps else None) of
        Some r \<Rightarrow> Some r
      | None \<Rightarrow> rmatch as s cur caps)"
| "rmatch (Alts [] # as) s cur caps = None"
| "rmatch (Alts (l # ls) # as) s cur caps =
     (case (if starts_with l s then rmatch as (drop (length l) s) (consume cur l) caps else None) of
        Some r \<Rightarrow> Some r
      | None \<Rightarrow> rmatch (Alts ls # as) s cur caps)"
| "rmatch (Plus c # as) s cur caps = rback as 1 (length (takeWhile (in_cls c) s)) s cur caps"
| "rmatch (Star c # as) s cur caps = rback as 0 (length (takeWhile (in_cls c) s)) s cur caps"
| "rmatch (Open # as) s cur caps = rmatch as s (Some []) caps"
| "rmatch (Close # as) s cur caps =
     rmatch as s None (caps @ [case cur of None \<Rightarrow> [] | Some u \<Rightarrow> u])"
| "rback as m k s cur caps =
     (if k < m then None
      else case rmatch as (drop k s) (consume cur (take k s)) caps of
             Some r \<Rightarrow> Some r
           | None \<Rightarrow> (case k of 0 \<Rightarrow> None | Suc j \<Rightarrow> rback as m j s cur caps))"
  by pat_completeness auto

termination
  by (relation "inv_image (less_than <*lex*> less_than)
        (\<lambda>x. case x of
           Inl (as, s, cur, caps) \<Rightarrow> (sum_list (map atom_weight as), 0)
         | Inr (as, m, k, s, cur, caps) \<Rightarrow> (sum_list (map atom_weight as), Suc k))") auto

text \<open>\<^verbatim>\<open>re.match\<close>: the pattern must match at the start of the text.\<close>

definition re_match :: "atom list \<Rightarrow> string \<Rightarrow> string list option" where
  "re_match p s = rmatch p s None []"

text \<open>\<^verbatim>\<open>re.search\<close>: the leftmost position where the pattern matches.\<close>

fun re_search :: "atom list \<Rightarrow> string \<Rightarrow> string list option" where
  "re_search p [] = rmatch p [] None []"
| "re_search p (c # s) =
     (case rmatch p (c # s) None [] of Some g \<Rightarrow> Some g | None \<Rightarrow> re_search p s)"

section \<open>The patterns of the extractor\<close>

text \<open>\<^verbatim>\<open>_VALID_URL = r'https?://www\.bilibili\.(?:tv|com)/video/av(?P<id>\d+)'\<close>\<close>

definition VALID_URL :: "atom list" where
  "VALID_URL =
     [Lit ''http'', Opt CHR ''s'', Lit ''://www.bilibili.'', Alts [''tv'', ''com''],
      Lit ''/video/av'', Open, Plus Digit, Close]"

text \<open>\<^verbatim>\<open>r'EmbedPlayer\([^)]+,\s*"([^"]+)"\)'\<close>, line 91.\<close>

definition player_pattern_A :: "atom list" where
  \<open>player_pattern_A =
     [Lit ''EmbedPlayer('', Plus (NotChar CHR '')''), Lit '','', Star Space, Lit ''"'',
      Open, Plus (NotChar CHR ''"''), Close, Lit ''")'']\<close>

text \<open>\<^verbatim>\<open>r'<iframe[^>]+src="https://secure\.bilibili\.com/secure,([^"]+)"'\<close>, line 92.\<close>

definition player_pattern_B :: "atom list" where
  \<open>player_pattern_B =
     [Lit ''<iframe'', Plus (NotChar CHR ''>''),
      Lit ''src="https://secure.bilibili.com/secure,'',
      Open, Plus (NotChar CHR ''"''), Close, Lit ''"'']\<close>

text \<open>\<^verbatim>\<open>'<h1[^>]+title="([^"]+)">'\<close>, line 124.\<close>

definition title_pattern :: "atom list" where
  \<open>title_pattern =
     [Lit ''<h1'', Plus (NotChar CHR ''>''), Lit ''title="'',
      Open, Plus (NotChar CHR ''"''), Close, Lit ''">'']\<close>

text \<open>\<^verbatim>\<open>r'<time[^>]+datetime="([^"]+)"'\<close>, line 127.\<close>

definition time_pattern :: "atom list" where
  \<open>time_pattern =
     [Lit ''<time'', Plus (NotChar CHR ''>''), Lit ''datetime="'',
      Open, Plus (NotChar CHR ''"''), Close, Lit ''"'']\<close>

text \<open>
  \<^verbatim>\<open>r'<a[^>]+href="https?://space\.bilibili\.com/(?P<id>\d+)"[^>]+title="(?P<name>[^"]+)"'\<close>,
  line 140.
\<close>

definition uploader_pattern :: "atom list" where
  \<open>uploader_pattern =
     [Lit ''<a'', Plus (NotChar CHR ''>''), Lit ''href="http'', Opt CHR ''s'',
      Lit ''://space.bilibili.com/'', Open, Plus Digit, Close, Lit ''"'',
      Plus (NotChar CHR ''>''), Lit ''title="'',
      Open, Plus (NotChar CHR ''"''), Close, Lit ''"'']\<close>

section \<open>Host helpers\<close>

text \<open>
  What the extractor calls on the host framework and the spec leaves to it: the two
  downloads, the clean-up of a matched HTML fragment, the search for a meta tag, and the
  parser of date strings.
\<close>

record host =
  download_webpage :: "string \<Rightarrow> string \<Rightarrow> error + string"
  download_json :: "string \<Rightarrow> string \<Rightarrow> error + video_info"
  clean_html :: "string \<Rightarrow> string"
  html_search_meta :: "string \<Rightarrow> string \<Rightarrow> string option"
  parse_date :: "string \<Rightarrow> int option"

datatype warning = UnableToExtract string

text \<open>
  Modelled from the spec: \<^verbatim>\<open>_match_id\<close> of \<^verbatim>\<open>youtube_dl/extractor/common.py\<close> is
  missing from the sources; the spec has the URL match the pattern from its start, the
  digits becoming the video id. A URL that does not match fails the helper's assertion.
\<close>

definition match_id :: "string \<Rightarrow> error + string" where
  "match_id url =
     (case re_match VALID_URL url of
        Some (g # gs) \<Rightarrow> Inr g
      | _ \<Rightarrow> Inl AssertionError)"

text \<open>
  Modelled from the spec: \<^verbatim>\<open>_search_regex\<close> of \<^verbatim>\<open>youtube_dl/extractor/common.py\<close>
  is missing from the sources. The spec has the patterns tried in order, the first one that
  matches anywhere giving its first group; when none matches the search fails with a
  "not found" error if it is fatal, and otherwise emits a warning and gives nothing.
\<close>

fun first_match :: "atom list list \<Rightarrow> string \<Rightarrow> string option" where
  "first_match [] s = None"
| "first_match (p # ps) s =
     (case re_search p s of
        Some (g # gs) \<Rightarrow> Some g
      | _ \<Rightarrow> first_match ps s)"

definition search_regex ::
  "atom list list \<Rightarrow> string \<Rightarrow> string \<Rightarrow> bool \<Rightarrow> warning list \<times> (error + string option)" where
  "search_regex patterns s name fatal =
     (case first_match patterns s of
        Some g \<Rightarrow> ([], Inr (Some g))
      | None \<Rightarrow>
          if fatal then ([], Inl (RegexNotFoundError name))
          else ([UnableToExtract name], Inr None))"

text \<open>
  Modelled from the spec: \<^verbatim>\<open>_html_search_regex\<close> of
  \<^verbatim>\<open>youtube_dl/extractor/common.py\<close> is missing from the sources; it is the search
  above, whose match the host cleans of HTML.
\<close>

definition html_search_regex ::
  "host \<Rightarrow> atom list \<Rightarrow> string \<Rightarrow> string \<Rightarrow> bool \<Rightarrow> warning list \<times> (error + string option)" where
  "html_search_regex h pattern s name fatal =
     (case search_regex [pattern] s name fatal of
        (ws, Inr (Some g)) \<Rightarrow> (ws, Inr (Some (clean_html h g)))
      | r \<Rightarrow> r)"

text \<open>
  Modelled from the spec: \<^verbatim>\<open>unified_timestamp\<close> of \<^verbatim>\<open>youtube_dl/utils.py\<close> is
  missing from the sources; the spec calls it a timestamp coercion helper tolerant of
  missing input, built on a generic parser of date strings, which is the host's.
\<close>

definition unified_timestamp :: "host \<Rightarrow> string option \<Rightarrow> pyval" where
  "unified_timestamp h date_str =
     (case date_str of
        None \<Rightarrow> PNone
      | Some d \<Rightarrow> (case parse_date h d of None \<Rightarrow> PNone | Some t \<Rightarrow> PInt t))"

section \<open>Query strings\<close>

text \<open>\<^verbatim>\<open>s.split(sep)\<close> for a separator of one character.\<close>

fun split_on :: "char \<Rightarrow> string \<Rightarrow> string list" where
  "split_on sep [] = [[]]"
| "split_on sep (c # s) =
     (if c = sep then [] # split_on sep s
      else (case split_on sep s of w # ws \<Rightarrow> (c # w) # ws | [] \<Rightarrow> [[c]]))"

definition hex_value :: "char \<Rightarrow> nat option" where
  "hex_value c =
     (let n = (of_char c :: nat) in
      if 48 \<le> n \<and> n \<le> 57 then Some (n - 48)
      else if 65 \<le> n \<and> n \<le> 70 then Some (n - 55)
      else if 97 \<le> n \<and> n \<le> 102 then Some (n - 87)
      else None)"

text \<open>
  An escape \<^verbatim>\<open>%XX\<close> stands for the character of code \<open>XX\<close>; a \<^verbatim>\<open>%\<close> that two
  hexadecimal digits do not follow stays as it is.
\<close>

fun unquote :: "string \<Rightarrow> string" where
  "unquote (c # h1 # h2 # s) =
     (case (c = CHR ''%'', hex_value h1, hex_value h2) of
        (True, Some a, Some b) \<Rightarrow> char_of (16 * a + b) # unquote s
      | _ \<Rightarrow> c # unquote (h1 # h2 # s))"
| "unquote s = s"

definition plus_to_space :: "string \<Rightarrow> string" where
  "plus_to_space s = map (\<lambda>c. if c = CHR ''+'' then CHR '' '' else c) s"

text \<open>One field \<^verbatim>\<open>name=value\<close>; a field without \<^verbatim>\<open>=\<close> or with an empty value is dropped.\<close>

definition parse_field :: "string \<Rightarrow> (string \<times> string) option" where
  "parse_field f =
     (let name = takeWhile (\<lambda>c. c \<noteq> CHR ''='') f;
          rest = dropWhile (\<lambda>c. c \<noteq> CHR ''='') f
      in if rest = [] \<or> tl rest = [] then None
         else Some (unquote (plus_to_space name), unquote (plus_to_space (tl rest))))"

fun add_value :: "string \<Rightarrow> string \<Rightarrow> (string \<times> string list) list \<Rightarrow> (string \<times> string list) list" where
  "add_value k v [] = [(k, [v])]"
| "add_value k v ((k', vs) # d) =
     (if k' = k then (k, vs @ [v]) # d else (k', vs) # add_value k v d)"

text \<open>
  Modelled from the spec: \<^verbatim>\<open>compat_parse_qs\<close> of \<^verbatim>\<open>youtube_dl/compat.py\<close> is missing
  from the sources; the spec has the fragment parsed as URL-encoded query parameters. The
  fields are separated by \<^verbatim>\<open>&\<close>, and each name maps to the list of its values in order.
\<close>

definition compat_parse_qs :: "string \<Rightarrow> (string \<times> string list) list" where
  "compat_parse_qs qs =
     foldl (\<lambda>d f. case parse_field f of None \<Rightarrow> d | Some (k, v) \<Rightarrow> add_value k v d)
       [] (split_on CHR ''&'' qs)"

text \<open>\<^verbatim>\<open>compat_parse_qs(...)['cid'][0]\<close>, line 93: neither lookup is guarded.\<close>

definition first_cid :: "string \<Rightarrow> error + string" where
  "first_cid qs =
     (case map_of (compat_parse_qs qs) ''cid'' of
        None \<Rightarrow> Inl (KeyError ''cid'')
      | Some [] \<Rightarrow> Inl IndexError
      | Some (v # vs) \<Rightarrow> Inr v)"

text \<open>Lines 90 to 93.\<close>

definition embedded_id :: "string \<Rightarrow> error + string" where
  "embedded_id webpage =
     (case search_regex [player_pattern_A, player_pattern_B] webpage ''player parameters'' True of
        (ws, Inl e) \<Rightarrow> Inl e
      | (ws, Inr None) \<Rightarrow> Inl TypeError
      | (ws, Inr (Some qs)) \<Rightarrow> first_cid qs)"

section \<open>Signer: lines 95 and 96\<close>

type_synonym byte = "8 word"

text \<open>\<^verbatim>\<open>s.encode('utf-8')\<close> on a text of characters below 256: one byte below 128, two above.\<close>

definition encode_utf8 :: "string \<Rightarrow> byte list" where
  "encode_utf8 s =
     concat (map (\<lambda>c. let n = (of_char c :: nat) in
                        if n < 128 then [of_nat n]
                        else [of_nat (192 + n div 64), of_nat (128 + n mod 64)]) s)"

text \<open>
  \<^verbatim>\<open>hashlib.md5\<close>: the MD5 message digest of RFC 1321, on 32-bit words. The message is
  padded with the byte \<open>0x80\<close>, zeros up to 56 modulo 64, and its length in bits as 8 bytes;
  each block of 64 bytes runs 64 steps over the four words of the state.
\<close>

definition md5_s :: "nat list" where
  "md5_s = [7, 12, 17, 22, 7, 12, 17, 22, 7, 12, 17, 22, 7, 12, 17, 22,
            5, 9, 14, 20, 5, 9, 14, 20, 5, 9, 14, 20, 5, 9, 14, 20,
            4, 11, 16, 23, 4, 11, 16, 23, 4, 11, 16, 23, 4, 11, 16, 23,
            6, 10, 15, 21, 6, 10, 15, 21, 6, 10, 15, 21, 6, 10, 15, 21]"

definition md5_K :: "32 word list" where
  "md5_K = [0xd76aa478, 0xe8c7b756, 0x242070db, 0xc1bdceee,
            0xf57c0faf, 0x4787c62a, 0xa8304613, 0xfd469501,
            0x698098d8, 0x8b44f7af, 0xffff5bb1, 0x895cd7be,
            0x6b901122, 0xfd987193, 0xa679438e, 0x49b40821,
            0xf61e2562, 0xc040b340, 0x265e5a51, 0xe9b6c7aa,
            0xd62f105d, 0x02441453, 0xd8a1e681, 0xe7d3fbc8,
            0x21e1cde6, 0xc33707d6, 0xf4d50d87, 0x455a14ed,
            0xa9e3e905, 0xfcefa3f8, 0x676f02d9, 0x8d2a4c8a,
            0xfffa3942, 0x8771f681, 0x6d9d6122, 0xfde5380c,
            0xa4beea44, 0x4bdecfa9, 0xf6bb4b60, 0xbebfbc70,
            0x289b7ec6, 0xeaa127fa, 0xd4ef3085, 0x04881d05,
            0xd9d4d039, 0xe6db99e5, 0x1fa27cf8, 0xc4ac5665,
            0xf4292244, 0x432aff97, 0xab9423a7, 0xfc93a039,
            0x655b59c3, 0x8f0ccc92, 0xffeff47d, 0x85845dd1,
            0x6fa87e4f, 0xfe2ce6e0, 0xa3014314, 0x4e0811a1,
            0xf7537e82, 0xbd3af235, 0x2ad7d2bb, 0xeb86d391]"

definition rotl32 :: "32 word \<Rightarrow> nat \<Rightarrow> 32 word" where
  "rotl32 x n = push_bit n x OR drop_bit (32 - n) x"

type_synonym md5_state = "32 word \<times> 32 word \<times> 32 word \<times> 32 word"

definition md5_step :: "32 word list \<Rightarrow> md5_state \<Rightarrow> nat \<Rightarrow> md5_state" where
  "md5_step M st i =
     (case st of (A, B, C, D) \<Rightarrow>
        let (F, g) =
              (if i < 16 then ((B AND C) OR (NOT B AND D), i)
               else if i < 32 then ((D AND B) OR (NOT D AND C), (5 * i + 1) mod 16)
               else if i < 48 then (B XOR C XOR D, (3 * i + 5) mod 16)
               else (C XOR (B OR NOT D), (7 * i) mod 16));
            F' = F + A + md5_K ! i + M ! g
        in (D, B + rotl32 F' (md5_s ! i), B, C))"

text \<open>Bytes to a word and back, least significant byte first.\<close>

fun le_word :: "byte list \<Rightarrow> 32 word" where
  "le_word [] = 0"
| "le_word (b # bs) = ucast b + push_bit 8 (le_word bs)"

fun le_bytes :: "nat \<Rightarrow> 'a::len word \<Rightarrow> byte list" where
  "le_bytes 0 w = []"
| "le_bytes (Suc n) w = ucast w # le_bytes n (drop_bit 8 w)"

fun chunk_words :: "nat \<Rightarrow> byte list \<Rightarrow> 32 word list" where
  "chunk_words 0 bs = []"
| "chunk_words (Suc n) bs = le_word (take 4 bs) # chunk_words n (drop 4 bs)"

definition md5_chunk :: "md5_state \<Rightarrow> byte list \<Rightarrow> md5_state" where
  "md5_chunk st chunk =
     (case st of (a0, b0, c0, d0) \<Rightarrow>
       (case foldl (md5_step (chunk_words 16 chunk)) st [0..<64] of (A, B, C, D) \<Rightarrow>
          (a0 + A, b0 + B, c0 + C, d0 + D)))"

fun md5_chunks :: "nat \<Rightarrow> md5_state \<Rightarrow> byte list \<Rightarrow> md5_state" where
  "md5_chunks 0 st bs = st"
| "md5_chunks (Suc n) st bs = md5_chunks n (md5_chunk st (take 64 bs)) (drop 64 bs)"

definition md5_pad :: "byte list \<Rightarrow> byte list" where
  "md5_pad msg =
     msg @ [0x80] @ replicate ((119 - length msg mod 64) mod 64) 0
         @ le_bytes 8 (of_nat (8 * length msg) :: 64 word)"

definition md5 :: "byte list \<Rightarrow> byte list" where
  "md5 msg =
     (let p = md5_pad msg in
      case md5_chunks (length p div 64) (0x67452301, 0xefcdab89, 0x98badcfe, 0x10325476) p of
        (a, b, c, d) \<Rightarrow> concat (map (le_bytes 4) [a, b, c, d]))"

text \<open>\<^verbatim>\<open>.hexdigest()\<close>: two lowercase hexadecimal digits for each byte.\<close>

definition hex_char :: "nat \<Rightarrow> char" where
  "hex_char d = ''0123456789abcdef'' ! d"

definition hexdigest :: "byte list \<Rightarrow> string" where
  "hexdigest bs = concat (map (\<lambda>b. [hex_char (unat b div 16), hex_char (unat b mod 16)]) bs)"

definition APP_KEY :: string where
  "APP_KEY = ''6f90a59ac58a4123''"

definition BILIBILI_KEY :: string where
  "BILIBILI_KEY = ''0bfd84cc3940035173f35e6777508326''"

text \<open>Line 95.\<close>

definition payload_of :: "string \<Rightarrow> string" where
  "payload_of cid = ''appkey='' @ APP_KEY @ ''&cid='' @ cid @ ''&otype=json&quality=2&type=mp4''"

text \<open>Line 96.\<close>

definition sign_of :: "string \<Rightarrow> string" where
  "sign_of payload = hexdigest (md5 (encode_utf8 (payload @ BILIBILI_KEY)))"

text \<open>The address of line 99.\<close>

definition playurl :: "string \<Rightarrow> string" where
  "playurl cid =
     ''http://interface.bilibili.com/playurl?'' @ payload_of cid @ ''&sign='' @ sign_of (payload_of cid)"

section \<open>Ranking of the formats\<close>

text \<open>
  Modelled from the spec: \<^verbatim>\<open>_sort_formats\<close> of \<^verbatim>\<open>youtube_dl/extractor/common.py\<close>
  is missing from the sources. The spec has the list sorted descending by preference, a
  format without preference above every format that has one, and formats of equal rank in
  their original order.
\<close>

definition preference_of :: "dict \<Rightarrow> int option" where
  "preference_of f = (case dict_get f ''preference'' of Some (PInt p) \<Rightarrow> Some p | _ \<Rightarrow> None)"

fun ranks_above :: "int option \<Rightarrow> int option \<Rightarrow> bool" where
  "ranks_above None None = False"
| "ranks_above None (Some q) = True"
| "ranks_above (Some p) None = False"
| "ranks_above (Some p) (Some q) = (q < p)"

text \<open>
  \<open>f\<close> comes from before the formats of the sorted list: it goes after those that rank
  strictly above it, and before the first one that does not.
\<close>

fun insert_format :: "dict \<Rightarrow> dict list \<Rightarrow> dict list" where
  "insert_format f [] = [f]"
| "insert_format f (g # gs) =
     (if ranks_above (preference_of g) (preference_of f) then g # insert_format f gs
      else f # g # gs)"

fun sort_formats :: "dict list \<Rightarrow> dict list" where
  "sort_formats [] = []"
| "sort_formats (f # fs) = insert_format f (sort_formats fs)"

section \<open>ResultAssembler\<close>

text \<open>The body of the loop of line 104, for the record \<open>durl\<close> at index \<open>idx\<close>.\<close>

definition durl_entry :: "string \<Rightarrow> nat \<Rightarrow> durl_record \<Rightarrow> error + dict" where
  "durl_entry video_id idx durl =
     (case durl_formats durl of
        Inl e \<Rightarrow> Inl e
      | Inr formats \<Rightarrow>
          Inr [(''id'', PStr (video_id @ ''_part'' @ str_of_nat idx)),
               (''duration'', float_or_none (get_field (durl_length durl)) 1000),
               (''formats'', PList (map PDict (sort_formats formats)))])"

text \<open>The loop of lines 104 to 122: \<open>idx\<close> counts the records, the first error ends it.\<close>

fun build_entries :: "string \<Rightarrow> nat \<Rightarrow> durl_record list \<Rightarrow> error + dict list" where
  "build_entries video_id idx [] = Inr []"
| "build_entries video_id idx (durl # durls) =
     (case durl_entry video_id idx durl of
        Inl e \<Rightarrow> Inl e
      | Inr entry \<Rightarrow>
          (case build_entries video_id (Suc idx) durls of
             Inl e \<Rightarrow> Inl e
           | Inr entries \<Rightarrow> Inr (entry # entries)))"

text \<open>Lines 130 to 137.\<close>

definition base_info ::
  "host \<Rightarrow> string \<Rightarrow> string \<Rightarrow> video_info \<Rightarrow> pyval \<Rightarrow> pyval \<Rightarrow> pyval \<Rightarrow> dict" where
  "base_info h video_id webpage vi title description timestamp =
     [(''id'', PStr video_id),
      (''title'', title),
      (''description'', description),
      (''timestamp'', timestamp),
      (''thumbnail'', str_or_none (html_search_meta h ''thumbnailUrl'' webpage)),
      (''duration'', float_or_none (get_field (vi_timelength vi)) 1000)]"

text \<open>Lines 139 to 146: the groups of the match are \<^verbatim>\<open>id\<close>, then \<^verbatim>\<open>name\<close>.\<close>

definition with_uploader :: "string \<Rightarrow> dict \<Rightarrow> dict" where
  "with_uploader webpage info =
     (case re_search uploader_pattern webpage of
        Some (uid # name # gs) \<Rightarrow>
          dict_update info [(''uploader'', PStr name), (''uploader_id'', PStr uid)]
      | _ \<Rightarrow> info)"

text \<open>The loop of lines 154 and 155.\<close>

fun renumber :: "string \<Rightarrow> nat \<Rightarrow> dict list \<Rightarrow> dict list" where
  "renumber video_id idx [] = []"
| "renumber video_id idx (entry # entries) =
     dict_set ''id'' (PStr (video_id @ ''_part'' @ str_of_nat (idx + 1))) entry
       # renumber video_id (Suc idx) entries"

text \<open>Lines 148 to 163.\<close>

definition assemble :: "string \<Rightarrow> pyval \<Rightarrow> pyval \<Rightarrow> dict \<Rightarrow> dict list \<Rightarrow> dict" where
  "assemble video_id title description info entries =
     (let merged = map (\<lambda>entry. dict_update entry info) entries
      in if length merged = 1 then hd merged
         else [(''_type'', PStr ''multi_video''),
               (''id'', PStr video_id),
               (''title'', title),
               (''description'', description),
               (''entries'', PList (map PDict (renumber video_id 0 merged)))])"

text \<open>Lines 124 to 163: what the page gives, once the entries are built.\<close>

definition page_result ::
  "host \<Rightarrow> string \<Rightarrow> string \<Rightarrow> video_info \<Rightarrow> dict list \<Rightarrow> warning list \<times> (error + dict)" where
  "page_result h video_id webpage vi entries =
     (case html_search_regex h title_pattern webpage ''title'' True of
        (ws, Inl e) \<Rightarrow> (ws, Inl e)
      | (ws, Inr t) \<Rightarrow>
          let title = str_or_none t;
              description = str_or_none (html_search_meta h ''description'' webpage)
          in (case html_search_regex h time_pattern webpage ''upload time'' False of
                (ws', Inl e) \<Rightarrow> (ws @ ws', Inl e)
              | (ws', Inr date_str) \<Rightarrow>
                  let timestamp = unified_timestamp h date_str;
                      info = with_uploader webpage
                               (base_info h video_id webpage vi title description timestamp)
                  in (ws @ ws', Inr (assemble video_id title description info entries))))"

text \<open>
  \<^verbatim>\<open>_real_extract\<close>, lines 85 to 163. The result is the warnings emitted and either the
  exception raised or the dictionary returned.
\<close>

definition real_extract :: "host \<Rightarrow> string \<Rightarrow> warning list \<times> (error + dict)" where
  "real_extract h url =
     (case match_id url of
        Inl e \<Rightarrow> ([], Inl e)
      | Inr video_id \<Rightarrow>
     (case download_webpage h url video_id of
        Inl e \<Rightarrow> ([], Inl e)
      | Inr webpage \<Rightarrow>
     (case embedded_id webpage of
        Inl e \<Rightarrow> ([], Inl e)
      | Inr cid \<Rightarrow>
     (case download_json h (playurl cid) video_id of
        Inl e \<Rightarrow> ([], Inl e)
      | Inr vi \<Rightarrow>
     (case subscript ''durl'' (vi_durl vi) of
        Inl e \<Rightarrow> ([], Inl e)
      | Inr None \<Rightarrow> ([], Inl TypeError)
      | Inr (Some durls) \<Rightarrow>
     (case build_entries video_id 0 durls of
        Inl e \<Rightarrow> ([], Inl e)
      | Inr entries \<Rightarrow> page_result h video_id webpage vi entries))))))"

text \<open>The entries a final result carries: those of a collection, or the result itself.\<close>

definition result_entries :: "dict \<Rightarrow> pyval list" where
  "result_entries r =
     (case dict_get r ''_type'' of
        Some t \<Rightarrow> (case dict_get r ''entries'' of Some (PList es) \<Rightarrow> es | _ \<Rightarrow> [])
      | None \<Rightarrow> [PDict r])"

section \<open>Example inputs\<close>

definition example_url :: string where
  "example_url = ''http://www.bilibili.com/video/av1074402/''"

definition title_html :: string where
  \<open>title_html = ''<h1 class="v" title="Gold">Gold</h1> ''\<close>

definition player_html :: string where
  \<open>player_html = ''<script>EmbedPlayer(foo, "cid=12345")</script> ''\<close>

definition iframe_html :: string where
  \<open>iframe_html = ''<iframe x src="https://secure.bilibili.com/secure,cid=99&aid=3" > ''\<close>

definition player_no_cid_html :: string where
  \<open>player_no_cid_html = ''<script>EmbedPlayer(foo, "aid=1074402")</script> ''\<close>

definition time_html :: string where
  \<open>time_html = ''<time itemprop="startDate" datetime="2014-04-20T16:51"> ''\<close>

definition uploader_html :: string where
  \<open>uploader_html = ''<a class="n" href="http://space.bilibili.com/156160" card="c" title="Kiku"> ''\<close>

definition page_full :: string where
  "page_full = title_html @ player_html @ time_html @ uploader_html"

definition page_no_time :: string where
  "page_no_time = title_html @ player_html @ uploader_html"

definition durl_a :: durl_record where
  "durl_a = \<lparr>durl_url = Val ''http://x/a.mp4'', durl_size = Val 100, durl_length = Val 5000,
             durl_backup_url = Val [''http://x/a_hd.mp4'', ''http://y/a.mp4'']\<rparr>"

definition durl_b :: durl_record where
  "durl_b = \<lparr>durl_url = Val ''http://x/b.mp4'', durl_size = Null, durl_length = Val 7000,
             durl_backup_url = Val []\<rparr>"

definition durl_no_size :: durl_record where
  "durl_no_size = \<lparr>durl_url = Val ''http://x/a.mp4'', durl_size = Absent, durl_length = Val 5000,
                   durl_backup_url = Val []\<rparr>"

fun example_meta :: "string \<Rightarrow> string \<Rightarrow> string option" where
  "example_meta name html =
     (if name = ''description'' then Some ''A video'' else None)"

fun example_parse_date :: "string \<Rightarrow> int option" where
  "example_parse_date d = (if d = ''2014-04-20T16:51'' then Some 1398012660 else None)"

fun example_clean :: "string \<Rightarrow> string" where
  "example_clean t = t"

text \<open>A host that serves one page for every address and one answer of the stream API.\<close>

fun serve_page :: "string \<Rightarrow> string \<Rightarrow> string \<Rightarrow> error + string" where
  "serve_page page url video_id = Inr page"

fun serve_json :: "video_info \<Rightarrow> string \<Rightarrow> string \<Rightarrow> error + video_info" where
  "serve_json vi url video_id = Inr vi"

definition example_host :: "string \<Rightarrow> video_info \<Rightarrow> host" where
  "example_host page vi =
     \<lparr>download_webpage = serve_page page, download_json = serve_json vi,
      clean_html = example_clean, html_search_meta = example_meta,
      parse_date = example_parse_date\<rparr>"

definition vi_single :: video_info where
  "vi_single = \<lparr>vi_durl = Val [durl_a], vi_timelength = Val 5000\<rparr>"

definition vi_multi :: video_info where
  "vi_multi = \<lparr>vi_durl = Val [durl_a, durl_b], vi_timelength = Val 12000\<rparr>"

definition page_iframe :: string where
  "page_iframe = title_html @ iframe_html @ time_html"

definition page_no_player :: string where
  "page_no_player = title_html @ time_html @ uploader_html"

definition page_no_cid :: string where
  "page_no_cid = title_html @ player_no_cid_html @ time_html"

definition vi_no_size :: video_info where
  "vi_no_size = \<lparr>vi_durl = Val [durl_no_size], vi_timelength = Val 5000\<rparr>"

definition signed_url :: string where
  "signed_url = ''http://interface.bilibili.com/playurl?appkey=6f90a59ac58a4123&cid=12345&otype=json&quality=2&type=mp4&sign=31b30c61ba0d5bb1f2b9d4d585013080''"

text \<open>A stream API that answers at one address only.\<close>

fun serve_json_at :: "string \<Rightarrow> video_info \<Rightarrow> string \<Rightarrow> string \<Rightarrow> error + video_info" where
  "serve_json_at address vi url video_id =
     (if url = address then Inr vi else Inl (HostError ''HTTP Error 404''))"

definition entry_multi_1 :: dict where
  "entry_multi_1 =
     [(''id'', PStr ''1074402_part1''), (''duration'', PFloat 12),
      (''formats'', PList
         [PDict [(''url'', PStr ''http://x/a.mp4''), (''filesize'', PInt 100)],
          PDict [(''url'', PStr ''http://x/a_hd.mp4''), (''preference'', PInt (- 2))],
          PDict [(''url'', PStr ''http://y/a.mp4''), (''preference'', PInt (- 3))]]),
      (''title'', PStr ''Gold''), (''description'', PStr ''A video''),
      (''timestamp'', PInt 1398012660), (''thumbnail'', PNone),
      (''uploader'', PStr ''Kiku''), (''uploader_id'', PStr ''156160'')]"

definition entry_multi_2 :: dict where
  "entry_multi_2 =
     [(''id'', PStr ''1074402_part2''), (''duration'', PFloat 12),
      (''formats'', PList [PDict [(''url'', PStr ''http://x/b.mp4''), (''filesize'', PNone)]]),
      (''title'', PStr ''Gold''), (''description'', PStr ''A video''),
      (''timestamp'', PInt 1398012660), (''thumbnail'', PNone),
      (''uploader'', PStr ''Kiku''), (''uploader_id'', PStr ''156160'')]"

definition result_multi :: dict where
  "result_multi =
     [(''_type'', PStr ''multi_video''), (''id'', PStr ''1074402''),
      (''title'', PStr ''Gold''), (''description'', PStr ''A video''),
      (''entries'', PList [PDict entry_multi_1, PDict entry_multi_2])]"

definition result_no_time :: dict where
  "result_no_time =
     [(''id'', PStr ''1074402''), (''duration'', PFloat 5),
      (''formats'', PList
         [PDict [(''url'', PStr ''http://x/a.mp4''), (''filesize'', PInt 100)],
          PDict [(''url'', PStr ''http://x/a_hd.mp4''), (''preference'', PInt (- 2))],
          PDict [(''url'', PStr ''http://y/a.mp4''), (''preference'', PInt (- 3))]]),
      (''title'', PStr ''Gold''), (''description'', PStr ''A video''),
      (''timestamp'', PNone), (''thumbnail'', PNone),
      (''uploader'', PStr ''Kiku''), (''uploader_id'', PStr ''156160'')]"

definition result_single :: dict where
  "result_single =
     [(''id'', PStr ''1074402''), (''duration'', PFloat 5),
      (''formats'', PList
         [PDict [(''url'', PStr ''http://x/a.mp4''), (''filesize'', PInt 100)],
          PDict [(''url'', PStr ''http://x/a_hd.mp4''), (''preference'', PInt (- 2))],
          PDict [(''url'', PStr ''http://y/a.mp4''), (''preference'', PInt (- 3))]]),
      (''title'', PStr ''Gold''), (''description'', PStr ''A video''),
      (''timestamp'', PInt 1398012660), (''thumbnail'', PNone),
      (''uploader'', PStr ''Kiku''), (''uploader_id'', PStr ''156160'')]"

section \<open>Lemmas on dictionaries, the loop and the ranking\<close>

lemma map_of_dict_set: "map_of (dict_set k v d) = (map_of d)(k \<mapsto> v)"
  by (induction d) (auto simp: fun_eq_iff)

lemma map_of_dict_update:
  "map_of (dict_update d e) x = (case map_of (rev e) x of None \<Rightarrow> map_of d x | Some v \<Rightarrow> Some v)"
  by (induction e arbitrary: d) (auto simp: map_of_dict_set map_add_def split: option.splits)

lemma dict_get_update:
  "dict_get (dict_update d e) k = (case dict_get (rev e) k of None \<Rightarrow> dict_get d k | Some v \<Rightarrow> Some v)"
  unfolding dict_get_def by (rule map_of_dict_update)

lemma dict_get_set: "dict_get (dict_set k v d) k' = (if k' = k then Some v else dict_get d k')"
  by (simp add: dict_get_def map_of_dict_set)

lemma contains_iff: "contains sub s \<longleftrightarrow> (\<exists>p q. s = p @ sub @ q)"
proof (induction s)
  case Nil
  then show ?case by auto
next
  case (Cons c s)
  show ?case
  proof
    assume "contains sub (c # s)"
    then consider "take (length sub) (c # s) = sub" | "contains sub s" by auto
    then show "\<exists>p q. c # s = p @ sub @ q"
    proof cases
      case 1
      then have "c # s = [] @ sub @ drop (length sub) (c # s)"
        by (metis append_Nil append_take_drop_id)
      then show ?thesis by blast
    next
      case 2
      then obtain p q where "s = p @ sub @ q" using Cons.IH by blast
      then have "c # s = (c # p) @ sub @ q" by simp
      then show ?thesis by blast
    qed
  next
    assume "\<exists>p q. c # s = p @ sub @ q"
    then obtain p q where pq: "c # s = p @ sub @ q" by blast
    show "contains sub (c # s)"
    proof (cases p)
      case Nil
      then have "take (length sub) (c # s) = sub" using pq by (metis append_Nil append_eq_conv_conj)
      then show ?thesis by simp
    next
      case (Cons a p')
      then have "s = p' @ sub @ q" using pq by simp
      then have "contains sub s" using Cons.IH by blast
      then show ?thesis by simp
    qed
  qed
qed

lemma build_entries_length:
  "build_entries vid k ds = Inr es \<Longrightarrow> length es = length ds"
  by (induction ds arbitrary: k es) (auto split: sum.splits)

lemma build_entries_nth:
  "build_entries vid k ds = Inr es \<Longrightarrow> i < length ds
     \<Longrightarrow> durl_entry vid (k + i) (ds ! i) = Inr (es ! i)"
proof (induction ds arbitrary: k es i)
  case Nil
  then show ?case by simp
next
  case (Cons d ds)
  obtain e es' where e: "durl_entry vid k d = Inr e"
    and es': "build_entries vid (Suc k) ds = Inr es'" and es: "es = e # es'"
    using Cons.prems(1) by (auto split: sum.splits)
  show ?case
  proof (cases i)
    case 0
    then show ?thesis using e es by simp
  next
    case (Suc j)
    then have "durl_entry vid (Suc k + j) (ds ! j) = Inr (es' ! j)"
      using Cons.IH [OF es'] Cons.prems(2) by simp
    then show ?thesis using Suc es by simp
  qed
qed

lemma length_renumber: "length (renumber vid k es) = length es"
  by (induction es arbitrary: k) auto

lemma nth_renumber:
  "i < length es \<Longrightarrow>
     renumber vid k es ! i = dict_set ''id'' (PStr (vid @ ''_part'' @ str_of_nat (k + i + 1))) (es ! i)"
  by (induction es arbitrary: k i) (auto simp: nth_Cons split: nat.splits)

lemma mset_insert_format: "mset (insert_format f gs) = add_mset f (mset gs)"
  by (induction gs) auto

lemma mset_sort_formats: "mset (sort_formats fs) = mset fs"
  by (induction fs) (auto simp: mset_insert_format)

lemma insert_format_skip:
  "\<forall>g\<in>set xs. ranks_above (preference_of g) (preference_of f)
     \<Longrightarrow> insert_format f (xs @ ys) = xs @ insert_format f ys"
  by (induction xs) auto

lemma insert_format_here:
  "ys = [] \<or> \<not> ranks_above (preference_of (hd ys)) (preference_of f)
     \<Longrightarrow> insert_format f ys = f # ys"
  by (cases ys) auto

lemma preference_of_backup:
  "preference_of (backup_format b) = Some (if contains ''hd.mp4'' b then - 2 else - 3)"
  by (simp add: preference_of_def backup_format_def dict_get_def)

lemma preference_of_primary:
  "preference_of [(''url'', u), (''filesize'', sz)] = None"
  by (simp add: preference_of_def dict_get_def)

lemma sort_formats_backups:
  "sort_formats (map backup_format bs) =
     map backup_format (filter (contains ''hd.mp4'') bs)
       @ map backup_format (filter (\<lambda>b. \<not> contains ''hd.mp4'' b) bs)"
proof (induction bs)
  case Nil
  then show ?case by simp
next
  case (Cons b bs)
  let ?H = "map backup_format (filter (contains ''hd.mp4'') bs)"
  let ?P = "map backup_format (filter (\<lambda>b. \<not> contains ''hd.mp4'' b) bs)"
  show ?case
  proof (cases "contains ''hd.mp4'' b")
    case True
    have "?H @ ?P = [] \<or>
          \<not> ranks_above (preference_of (hd (?H @ ?P))) (preference_of (backup_format b))"
    proof (cases "?H @ ?P")
      case Nil
      then show ?thesis by simp
    next
      case (Cons g gs)
      then have "g \<in> set (?H @ ?P)" by simp
      then obtain c where "g = backup_format c" by auto
      then show ?thesis using Cons True by (simp add: preference_of_backup)
    qed
    then have "insert_format (backup_format b) (?H @ ?P) = backup_format b # ?H @ ?P"
      by (rule insert_format_here)
    then show ?thesis using True Cons.IH by simp
  next
    case False
    have skip: "\<forall>g\<in>set ?H. ranks_above (preference_of g) (preference_of (backup_format b))"
      using False by (auto simp: preference_of_backup)
    have "?P = [] \<or> \<not> ranks_above (preference_of (hd ?P)) (preference_of (backup_format b))"
    proof (cases ?P)
      case Nil
      then show ?thesis by simp
    next
      case (Cons g gs)
      then have "g \<in> set ?P" by simp
      then obtain c where "g = backup_format c" "\<not> contains ''hd.mp4'' c" by auto
      then show ?thesis using Cons False by (simp add: preference_of_backup)
    qed
    then have "insert_format (backup_format b) ?P = backup_format b # ?P"
      by (rule insert_format_here)
    then have "insert_format (backup_format b) (?H @ ?P) = ?H @ backup_format b # ?P"
      using insert_format_skip [OF skip] by simp
    then show ?thesis using False Cons.IH by simp
  qed
qed

lemma sort_formats_primary:
  "sort_formats ([(''url'', u), (''filesize'', sz)] # map backup_format bs) =
     [(''url'', u), (''filesize'', sz)] # sort_formats (map backup_format bs)"
proof -
  let ?S = "sort_formats (map backup_format bs)"
  have "?S = [] \<or> \<not> ranks_above (preference_of (hd ?S)) (preference_of [(''url'', u), (''filesize'', sz)])"
    by (simp add: preference_of_primary) (metis option.exhaust ranks_above.simps(1,3))
  then show ?thesis by (simp add: insert_format_here)
qed

lemma length_le_bytes: "length (le_bytes n w) = n"
  by (induction n arbitrary: w) auto

lemma length_md5: "length (md5 msg) = 16"
  by (simp add: md5_def Let_def length_le_bytes split: prod.splits)

lemma length_hexdigest: "length (hexdigest bs) = 2 * length bs"
  by (induction bs) (auto simp: hexdigest_def)

lemma hex_char_lower: "d < 16 \<Longrightarrow> hex_char d \<in> set ''0123456789abcdef''"
  unfolding hex_char_def by (rule nth_mem) simp

lemma set_hexdigest: "set (hexdigest bs) \<subseteq> set ''0123456789abcdef''"
proof -
  define S where "S = set ''0123456789abcdef''"
  have "hex_char (unat b div 16) \<in> S" "hex_char (unat b mod 16) \<in> S" for b :: byte
  proof -
    have "unat b < 2 ^ LENGTH(8)" by (rule unsigned_less)
    then have "unat b div 16 < 16" "unat b mod 16 < 16" by simp_all
    then show "hex_char (unat b div 16) \<in> S" "hex_char (unat b mod 16) \<in> S"
      unfolding S_def by (simp_all only: hex_char_lower)
  qed
  then have "set (hexdigest bs) \<subseteq> S"
    unfolding hexdigest_def by (induction bs) simp_all
  then show ?thesis unfolding S_def .
qed

section \<open>The claims on the formats\<close>

text \<open>
  What lines 105 to 114 build when the keys \<^verbatim>\<open>url\<close> and \<^verbatim>\<open>size\<close> of the record are
  present and its backup URLs are \<open>bs\<close>: exactly \<open>1 + length bs\<close> formats, first the format of
  the primary URL, with the filesize of the record and no preference key; then, for each
  backup URL, a format with no filesize key and the preference \<open>-2\<close> when \<^verbatim>\<open>hd.mp4\<close>
  occurs in the URL and \<open>-3\<close> otherwise. Ranking keeps exactly these formats.
\<close>

lemma durl_formats_shape:
  assumes "durl_url d \<noteq> Absent" and "durl_size d \<noteq> Absent" and "durl_backup_url d = Val bs"
  shows "\<exists>fs. durl_formats d = Inr fs
           \<and> length fs = 1 + length bs
           \<and> fs ! 0 = [(''url'', str_or_none (get_field (durl_url d))),
                       (''filesize'', int_or_none (get_field (durl_size d)))]
           \<and> dict_get (fs ! 0) ''preference'' = None
           \<and> (\<forall>i<length bs.
                 fs ! (Suc i) =
                   [(''url'', PStr (bs ! i)),
                    (''preference'', PInt (if \<exists>p q. bs ! i = p @ ''hd.mp4'' @ q then - 2 else - 3))]
                 \<and> dict_get (fs ! (Suc i)) ''filesize'' = None)
           \<and> mset (sort_formats fs) = mset fs"
proof -
  let ?primary = "[(''url'', str_or_none (get_field (durl_url d))),
                   (''filesize'', int_or_none (get_field (durl_size d)))]"
  have u: "subscript ''url'' (durl_url d) = Inr (get_field (durl_url d))"
    using assms(1) by (cases "durl_url d") simp_all
  have s: "subscript ''size'' (durl_size d) = Inr (get_field (durl_size d))"
    using assms(2) by (cases "durl_size d") simp_all
  have fs: "durl_formats d = Inr (?primary # map backup_format bs)"
    by (simp add: durl_formats_def u s assms(3))
  have backup: "backup_format b =
      [(''url'', PStr b), (''preference'', PInt (if \<exists>p q. b = p @ ''hd.mp4'' @ q then - 2 else - 3))]"
    for b by (simp add: backup_format_def contains_iff)
  have "\<forall>i<length bs. (?primary # map backup_format bs) ! (Suc i) =
          [(''url'', PStr (bs ! i)),
           (''preference'', PInt (if \<exists>p q. bs ! i = p @ ''hd.mp4'' @ q then - 2 else - 3))]
        \<and> dict_get ((?primary # map backup_format bs) ! (Suc i)) ''filesize'' = None"
    by (simp add: backup dict_get_def)
  then show ?thesis
    using fs by (simp add: dict_get_def mset_sort_formats)
qed

lemma durl_formats_shape_example:
  "durl_formats durl_a =
     Inr [[(''url'', PStr ''http://x/a.mp4''), (''filesize'', PInt 100)],
          [(''url'', PStr ''http://x/a_hd.mp4''), (''preference'', PInt (- 2))],
          [(''url'', PStr ''http://y/a.mp4''), (''preference'', PInt (- 3))]]
   \<and> (\<exists>fs. durl_formats durl_a = Inr fs \<and> length fs = 3)"
proof -
  have 1: "durl_url durl_a \<noteq> Absent" by (simp add: durl_a_def)
  have 2: "durl_size durl_a \<noteq> Absent" by (simp add: durl_a_def)
  have 3: "durl_backup_url durl_a = Val [''http://x/a_hd.mp4'', ''http://y/a.mp4'']"
    by (simp add: durl_a_def)
  have "durl_formats durl_a =
     Inr [[(''url'', PStr ''http://x/a.mp4''), (''filesize'', PInt 100)],
          [(''url'', PStr ''http://x/a_hd.mp4''), (''preference'', PInt (- 2))],
          [(''url'', PStr ''http://y/a.mp4''), (''preference'', PInt (- 3))]]"
    by (simp add: durl_formats_def durl_a_def str_or_none_def backup_format_def)
  then show ?thesis using durl_formats_shape [OF 1 2 3] by auto
qed

text \<open>
  C5 does not hold on the code for every record: line 107 subscripts \<^verbatim>\<open>durl['size']\<close>,
  so that a record with a primary URL, no backup URL and no key \<^verbatim>\<open>size\<close> gives no
  format at all, where the claim has it give exactly one. The formats of the records whose
  keys are present are those of \<open>durl_formats_shape\<close>.
\<close>

theorem zero_backups_no_size_no_format:
  "durl_url durl_no_size = Val ''http://x/a.mp4''
   \<and> durl_backup_url durl_no_size = Val []
   \<and> durl_size durl_no_size = Absent
   \<and> durl_formats durl_no_size = Inl (KeyError ''size'')
   \<and> durl_entry ''1074402'' 0 durl_no_size = Inl (KeyError ''size'')"
  by (simp add: durl_formats_def durl_entry_def durl_no_size_def)

text \<open>
  C6. The format list attached to the entry of a record is the primary format, then the
  backups whose URL contains \<^verbatim>\<open>hd.mp4\<close> in their original order, then the other backups
  in their original order. For the backup URLs \<open>[b1, b2]\<close> with \<^verbatim>\<open>hd.mp4\<close> in \<open>b1\<close>
  and not in \<open>b2\<close>, the list is \<open>[primary, b1, b2]\<close>.
\<close>

theorem ranked_formats_order:
  assumes "durl_url d \<noteq> Absent" and "durl_size d \<noteq> Absent" and "durl_backup_url d = Val bs"
  shows "\<exists>e primary. durl_entry video_id idx d = Inr e
           \<and> primary = [(''url'', str_or_none (get_field (durl_url d))),
                        (''filesize'', int_or_none (get_field (durl_size d)))]
           \<and> dict_get e ''formats'' =
               Some (PList (map PDict
                 (primary # map backup_format (filter (contains ''hd.mp4'') bs)
                          @ map backup_format (filter (\<lambda>b. \<not> contains ''hd.mp4'' b) bs))))
           \<and> (\<forall>b1 b2. contains ''hd.mp4'' b1 \<and> \<not> contains ''hd.mp4'' b2 \<and> bs = [b1, b2] \<longrightarrow>
                 dict_get e ''formats'' =
                   Some (PList [PDict primary,
                                PDict [(''url'', PStr b1), (''preference'', PInt (- 2))],
                                PDict [(''url'', PStr b2), (''preference'', PInt (- 3))]]))"
proof -
  let ?primary = "[(''url'', str_or_none (get_field (durl_url d))),
                   (''filesize'', int_or_none (get_field (durl_size d)))]"
  let ?ranked = "?primary # map backup_format (filter (contains ''hd.mp4'') bs)
                          @ map backup_format (filter (\<lambda>b. \<not> contains ''hd.mp4'' b) bs)"
  let ?e = "[(''id'', PStr (video_id @ ''_part'' @ str_of_nat idx)),
             (''duration'', float_or_none (get_field (durl_length d)) 1000),
             (''formats'', PList (map PDict ?ranked))]"
  have u: "subscript ''url'' (durl_url d) = Inr (get_field (durl_url d))"
    using assms(1) by (cases "durl_url d") simp_all
  have s: "subscript ''size'' (durl_size d) = Inr (get_field (durl_size d))"
    using assms(2) by (cases "durl_size d") simp_all
  have fs: "durl_formats d = Inr (?primary # map backup_format bs)"
    by (simp add: durl_formats_def u s assms(3))
  have sorted: "sort_formats (?primary # map backup_format bs) = ?ranked"
    unfolding sort_formats_primary sort_formats_backups ..
  have e: "durl_entry video_id idx d = Inr ?e"
    by (simp add: durl_entry_def fs sorted del: sort_formats.simps)
  have get: "dict_get ?e ''formats'' = Some (PList (map PDict ?ranked))"
    by (simp add: dict_get_def)
  have inst: "dict_get ?e ''formats'' =
      Some (PList [PDict ?primary,
                   PDict [(''url'', PStr b1), (''preference'', PInt (- 2))],
                   PDict [(''url'', PStr b2), (''preference'', PInt (- 3))]])"
    if "contains ''hd.mp4'' b1" "\<not> contains ''hd.mp4'' b2" "bs = [b1, b2]" for b1 b2
  proof -
    have "?ranked = [?primary, backup_format b1, backup_format b2]"
      using that by simp
    moreover have "backup_format b1 = [(''url'', PStr b1), (''preference'', PInt (- 2))]"
      using that(1) by (simp add: backup_format_def)
    moreover have "backup_format b2 = [(''url'', PStr b2), (''preference'', PInt (- 3))]"
      using that(2) by (simp add: backup_format_def)
    ultimately show ?thesis unfolding get by simp
  qed
  show ?thesis
    using e get inst by blast
qed

theorem ranked_formats_order_witness:
  "durl_entry ''1074402'' 0 durl_a =
     Inr [(''id'', PStr ''1074402_part0''), (''duration'', PFloat 5),
          (''formats'', PList
             [PDict [(''url'', PStr ''http://x/a.mp4''), (''filesize'', PInt 100)],
              PDict [(''url'', PStr ''http://x/a_hd.mp4''), (''preference'', PInt (- 2))],
              PDict [(''url'', PStr ''http://y/a.mp4''), (''preference'', PInt (- 3))]])]
   \<and> contains ''hd.mp4'' ''http://x/a_hd.mp4'' \<and> \<not> contains ''hd.mp4'' ''http://y/a.mp4''"
proof -
  have 1: "durl_url durl_a \<noteq> Absent" by (simp add: durl_a_def)
  have 2: "durl_size durl_a \<noteq> Absent" by (simp add: durl_a_def)
  have 3: "durl_backup_url durl_a = Val [''http://x/a_hd.mp4'', ''http://y/a.mp4'']"
    by (simp add: durl_a_def)
  have c1: "contains ''hd.mp4'' ''http://x/a_hd.mp4''" by simp
  have c2: "\<not> contains ''hd.mp4'' ''http://y/a.mp4''" by simp
  have id: "durl_entry ''1074402'' 0 durl_a =
     Inr ((''id'', PStr ''1074402_part0'') # (''duration'', PFloat 5) #
          [(''formats'', the (dict_get (projr (durl_entry ''1074402'' 0 durl_a)) ''formats''))])"
    by (simp add: durl_entry_def durl_formats_def durl_a_def dict_get_def str_of_nat.simps digit_char_def)
  from ranked_formats_order [OF 1 2 3, of "''1074402''" 0] c1 c2
  have "dict_get (projr (durl_entry ''1074402'' 0 durl_a)) ''formats'' =
     Some (PList
             [PDict [(''url'', PStr ''http://x/a.mp4''), (''filesize'', PInt 100)],
              PDict [(''url'', PStr ''http://x/a_hd.mp4''), (''preference'', PInt (- 2))],
              PDict [(''url'', PStr ''http://y/a.mp4''), (''preference'', PInt (- 3))]])"
    by (auto simp: durl_a_def str_or_none_def)
  with id c1 c2 show ?thesis by simp
qed

section \<open>The extraction as a whole\<close>

lemma rmatch_groups:
  "rmatch p s cur caps = Some r \<Longrightarrow> length r = length caps + count_list p Close"
  "rback p m k s cur caps = Some r \<Longrightarrow> length r = length caps + count_list p Close"
proof (induction p s cur caps and p m k s cur caps arbitrary: r and r rule: rmatch_rback.induct)
  case (10 as m k s cur caps)
  show ?case
  proof (cases "rmatch as (drop k s) (consume cur (take k s)) caps")
    case None
    then show ?thesis using "10.prems" "10.IH"(2) by (auto split: if_splits nat.splits)
  next
    case (Some a)
    then show ?thesis using "10.prems" "10.IH"(1) by (auto split: if_splits)
  qed
qed (auto split: if_splits option.splits)

lemma re_search_groups:
  "re_search p s = Some r \<Longrightarrow> length r = count_list p Close"
  by (induction s) (auto split: option.splits dest: rmatch_groups(1))

lemma all_le_Suc: "(\<forall>i\<le>Suc n. Q i) \<longleftrightarrow> Q 0 \<and> (\<forall>i\<le>n. Q (Suc i))"
proof
  assume "\<forall>i\<le>Suc n. Q i"
  then show "Q 0 \<and> (\<forall>i\<le>n. Q (Suc i))" by simp
next
  assume h: "Q 0 \<and> (\<forall>i\<le>n. Q (Suc i))"
  show "\<forall>i\<le>Suc n. Q i"
  proof (intro allI impI)
    fix i assume "i \<le> Suc n"
    then show "Q i" using h by (cases i) simp_all
  qed
qed

lemma re_search_None_iff:
  "re_search p s = None \<longleftrightarrow> (\<forall>i\<le>length s. re_match p (drop i s) = None)"
proof (induction s)
  case Nil
  then show ?case by (simp add: re_match_def)
next
  case (Cons c s)
  have "(\<forall>i\<le>length (c # s). re_match p (drop i (c # s)) = None) \<longleftrightarrow>
        re_match p (c # s) = None \<and> (\<forall>i\<le>length s. re_match p (drop i s) = None)"
    by (simp add: all_le_Suc)
  then show ?case using Cons.IH by (auto simp: re_match_def split: option.splits)
qed

lemma first_match_single:
  assumes "count_list p Close = Suc n"
  shows "first_match [p] s = map_option hd (re_search p s)"
proof (cases "re_search p s")
  case None
  then show ?thesis by simp
next
  case (Some gs)
  then have "gs \<noteq> []" using re_search_groups [OF Some] assms by auto
  then show ?thesis using Some by (cases gs) simp_all
qed

lemma first_match_players:
  "first_match [player_pattern_A, player_pattern_B] page =
     (case re_search player_pattern_A page of
        Some gs \<Rightarrow> Some (hd gs)
      | None \<Rightarrow> map_option hd (re_search player_pattern_B page))"
proof -
  have B: "first_match [player_pattern_B] page = map_option hd (re_search player_pattern_B page)"
    by (rule first_match_single [of _ 0]) (simp add: player_pattern_B_def)
  show ?thesis
  proof (cases "re_search player_pattern_A page")
    case None
    then show ?thesis using B by simp
  next
    case (Some gs)
    have "count_list player_pattern_A Close = Suc 0" by (simp add: player_pattern_A_def)
    then have "gs \<noteq> []" using re_search_groups [OF Some] by auto
    then show ?thesis using Some by (cases gs) simp_all
  qed
qed

lemma embedded_id_cases:
  "embedded_id page =
     (case first_match [player_pattern_A, player_pattern_B] page of
        None \<Rightarrow> Inl (RegexNotFoundError ''player parameters'')
      | Some q \<Rightarrow> first_cid q)"
  by (simp add: embedded_id_def search_regex_def split: option.splits)

lemma real_extract_fetched:
  assumes "match_id url = Inr vid" and "download_webpage h url vid = Inr page"
    and "embedded_id page = Inr cid" and "download_json h (playurl cid) vid = Inr vi"
    and "vi_durl vi = Val ds"
  shows "real_extract h url =
           (case build_entries vid 0 ds of
              Inl e \<Rightarrow> ([], Inl e)
            | Inr es \<Rightarrow> page_result h vid page vi es)"
  using assms by (simp add: real_extract_def)

lemma with_uploader_keys:
  "with_uploader page (base_info h vid page vi t d ts) =
     base_info h vid page vi t d ts @
       (case re_search uploader_pattern page of
          Some (uid # name # gs) \<Rightarrow> [(''uploader'', PStr name), (''uploader_id'', PStr uid)]
        | _ \<Rightarrow> [])"
  by (simp add: with_uploader_def base_info_def split: option.splits list.splits)

lemma merged_get:
  fixes e :: dict and page h vid vi t d ts
  defines "m \<equiv> dict_update e (with_uploader page (base_info h vid page vi t d ts))"
  shows "dict_get m ''id'' = Some (PStr vid)"
    and "dict_get m ''timestamp'' = Some ts"
    and "dict_get m ''duration'' = Some (float_or_none (get_field (vi_timelength vi)) 1000)"
    and "dict_get m ''formats'' = dict_get e ''formats''"
    and "dict_get m ''_type'' = dict_get e ''_type''"
    and "dict_get m ''entries'' = dict_get e ''entries''"
  unfolding m_def dict_get_update with_uploader_keys
  by (simp_all add: base_info_def dict_get_def split: option.splits list.splits)

lemma page_result_title:
  assumes "first_match [title_pattern] page = Some t"
  shows "page_result h vid page vi es =
    ((if first_match [time_pattern] page = None then [UnableToExtract ''upload time''] else []),
     Inr (assemble vid (PStr (clean_html h t)) (str_or_none (html_search_meta h ''description'' page))
          (with_uploader page (base_info h vid page vi (PStr (clean_html h t))
               (str_or_none (html_search_meta h ''description'' page))
               (unified_timestamp h (map_option (clean_html h) (first_match [time_pattern] page)))))
          es))"
  using assms
  by (simp add: page_result_def html_search_regex_def search_regex_def Let_def str_or_none_def
           split: option.splits)

lemma page_result_no_title:
  "first_match [title_pattern] page = None \<Longrightarrow>
     page_result h vid page vi es = ([], Inl (RegexNotFoundError ''title''))"
  by (simp add: page_result_def html_search_regex_def search_regex_def)

lemma durl_entry_Inr:
  "durl_entry vid idx d = Inr e \<Longrightarrow>
     \<exists>fs. durl_formats d = Inr fs \<and>
          e = [(''id'', PStr (vid @ ''_part'' @ str_of_nat idx)),
               (''duration'', float_or_none (get_field (durl_length d)) 1000),
               (''formats'', PList (map PDict (sort_formats fs)))]"
  by (auto simp: durl_entry_def split: sum.splits)

lemma example_match_id: "match_id example_url = Inr ''1074402''"
  by code_simp

lemma example_download_webpage: "download_webpage (example_host page vi) url vid = Inr page"
  by (simp add: example_host_def)

lemma example_download_json: "download_json (example_host page vi) url vid = Inr vi"
  by (simp add: example_host_def)

lemma example_embedded_id:
  "embedded_id page_full = Inr ''12345''" "embedded_id page_no_time = Inr ''12345''"
  by code_simp+

lemma example_title:
  "first_match [title_pattern] page_full = Some ''Gold''"
  "first_match [title_pattern] page_no_time = Some ''Gold''"
  by code_simp+

lemma example_entries_single:
  "build_entries ''1074402'' 0 [durl_a] =
     Inr [[(''id'', PStr ''1074402_part0''), (''duration'', PFloat 5),
           (''formats'', PList
              [PDict [(''url'', PStr ''http://x/a.mp4''), (''filesize'', PInt 100)],
               PDict [(''url'', PStr ''http://x/a_hd.mp4''), (''preference'', PInt (- 2))],
               PDict [(''url'', PStr ''http://y/a.mp4''), (''preference'', PInt (- 3))]])]]"
  by code_simp

lemma example_entries_multi:
  "build_entries ''1074402'' 0 [durl_a, durl_b] =
     Inr [[(''id'', PStr ''1074402_part0''), (''duration'', PFloat 5),
           (''formats'', PList
              [PDict [(''url'', PStr ''http://x/a.mp4''), (''filesize'', PInt 100)],
               PDict [(''url'', PStr ''http://x/a_hd.mp4''), (''preference'', PInt (- 2))],
               PDict [(''url'', PStr ''http://y/a.mp4''), (''preference'', PInt (- 3))]])],
          [(''id'', PStr ''1074402_part1''), (''duration'', PFloat 7),
           (''formats'', PList
              [PDict [(''url'', PStr ''http://x/b.mp4''), (''filesize'', PNone)]])]]"
  by code_simp

lemma example_page_result_single:
  "page_result (example_host page_full vi_single) ''1074402'' page_full vi_single
     [[(''id'', PStr ''1074402_part0''), (''duration'', PFloat 5),
       (''formats'', PList
          [PDict [(''url'', PStr ''http://x/a.mp4''), (''filesize'', PInt 100)],
           PDict [(''url'', PStr ''http://x/a_hd.mp4''), (''preference'', PInt (- 2))],
           PDict [(''url'', PStr ''http://y/a.mp4''), (''preference'', PInt (- 3))]])]] =
   ([],
    Inr [(''id'', PStr ''1074402''), (''duration'', PFloat 5),
         (''formats'', PList
            [PDict [(''url'', PStr ''http://x/a.mp4''), (''filesize'', PInt 100)],
             PDict [(''url'', PStr ''http://x/a_hd.mp4''), (''preference'', PInt (- 2))],
             PDict [(''url'', PStr ''http://y/a.mp4''), (''preference'', PInt (- 3))]]),
         (''title'', PStr ''Gold''), (''description'', PStr ''A video''),
         (''timestamp'', PInt 1398012660), (''thumbnail'', PNone),
         (''uploader'', PStr ''Kiku''), (''uploader_id'', PStr ''156160'')])"
  by code_simp

lemma example_run_single:
  "real_extract (example_host page_full vi_single) example_url =
   ([],
    Inr [(''id'', PStr ''1074402''), (''duration'', PFloat 5),
         (''formats'', PList
            [PDict [(''url'', PStr ''http://x/a.mp4''), (''filesize'', PInt 100)],
             PDict [(''url'', PStr ''http://x/a_hd.mp4''), (''preference'', PInt (- 2))],
             PDict [(''url'', PStr ''http://y/a.mp4''), (''preference'', PInt (- 3))]]),
         (''title'', PStr ''Gold''), (''description'', PStr ''A video''),
         (''timestamp'', PInt 1398012660), (''thumbnail'', PNone),
         (''uploader'', PStr ''Kiku''), (''uploader_id'', PStr ''156160'')])"
proof -
  have "vi_durl vi_single = Val [durl_a]" by (simp add: vi_single_def)
  from real_extract_fetched [OF example_match_id example_download_webpage
      example_embedded_id(1) example_download_json this]
  show ?thesis by (simp only: example_entries_single sum.case example_page_result_single)
qed

lemma page_result_Inr:
  assumes "page_result h vid page vi es = (ws, Inr r)"
  shows "\<exists>t ts. first_match [title_pattern] page = Some t \<and>
           r = assemble vid (PStr (clean_html h t))
                 (str_or_none (html_search_meta h ''description'' page))
                 (with_uploader page (base_info h vid page vi (PStr (clean_html h t))
                    (str_or_none (html_search_meta h ''description'' page)) ts)) es"
proof (cases "first_match [title_pattern] page")
  case None
  then show ?thesis using assms by (simp add: page_result_no_title)
next
  case (Some t)
  then show ?thesis using assms page_result_title [OF Some, of h vid vi es] by auto
qed

lemma real_extract_Inr:
  assumes "match_id url = Inr vid" and "download_webpage h url vid = Inr page"
    and "embedded_id page = Inr cid" and "download_json h (playurl cid) vid = Inr vi"
    and "vi_durl vi = Val ds" and "real_extract h url = (ws, Inr r)"
  shows "\<exists>es. build_entries vid 0 ds = Inr es \<and> page_result h vid page vi es = (ws, Inr r)"
  using real_extract_fetched [OF assms(1-5)] assms(6) by (auto split: sum.splits)

text \<open>
  C1, as amended. When the \<^verbatim>\<open>durl\<close> array has exactly one record and the extraction
  returns, the result is the entry of that record with the metadata merged into it, returned
  without a collection wrapper: it has no \<^verbatim>\<open>_type\<close> and no \<^verbatim>\<open>entries\<close> key, and it
  carries the ranked formats of the record. Its id is the video id: the merge of line 149
  stores the id of \<^verbatim>\<open>info\<close> over the temporary id \<^verbatim>\<open><videoId>_part0\<close>.
\<close>

theorem single_part_result:
  assumes "match_id url = Inr vid" and "download_webpage h url vid = Inr page"
    and "embedded_id page = Inr cid" and "download_json h (playurl cid) vid = Inr vi"
    and "vi_durl vi = Val [d]" and "real_extract h url = (ws, Inr r)"
  shows "dict_get r ''id'' = Some (PStr vid)
       \<and> dict_get r ''_type'' = None \<and> dict_get r ''entries'' = None
       \<and> result_entries r = [PDict r]
       \<and> (\<exists>e info. durl_entry vid 0 d = Inr e \<and> r = dict_update e info)
       \<and> (\<exists>fs. durl_formats d = Inr fs
                \<and> dict_get r ''formats'' = Some (PList (map PDict (sort_formats fs))))"
proof -
  obtain es where es: "build_entries vid 0 [d] = Inr es"
    and pr: "page_result h vid page vi es = (ws, Inr r)"
    using real_extract_Inr [OF assms] by blast
  obtain e where e: "durl_entry vid 0 d = Inr e" and es_e: "es = [e]"
    using es by (auto split: sum.splits)
  obtain fs where fs: "durl_formats d = Inr fs"
    and e_eq: "e = [(''id'', PStr (vid @ ''_part'' @ str_of_nat 0)),
                    (''duration'', float_or_none (get_field (durl_length d)) 1000),
                    (''formats'', PList (map PDict (sort_formats fs)))]"
    using durl_entry_Inr [OF e] by blast
  obtain t ts where
    r: "r = assemble vid (PStr (clean_html h t))
              (str_or_none (html_search_meta h ''description'' page))
              (with_uploader page (base_info h vid page vi (PStr (clean_html h t))
                 (str_or_none (html_search_meta h ''description'' page)) ts)) es"
    using page_result_Inr [OF pr] by blast
  let ?info = "with_uploader page (base_info h vid page vi (PStr (clean_html h t))
                 (str_or_none (html_search_meta h ''description'' page)) ts)"
  have r': "r = dict_update e ?info"
    unfolding r es_e by (simp add: assemble_def)
  have "dict_get e ''formats'' = Some (PList (map PDict (sort_formats fs)))"
    "dict_get e ''_type'' = None" "dict_get e ''entries'' = None"
    unfolding e_eq by (simp_all add: dict_get_def)
  then have gets: "dict_get r ''id'' = Some (PStr vid)"
    "dict_get r ''formats'' = Some (PList (map PDict (sort_formats fs)))"
    "dict_get r ''_type'' = None" "dict_get r ''entries'' = None"
    unfolding r' by (simp_all add: merged_get)
  have "result_entries r = [PDict r]"
    by (simp add: result_entries_def gets)
  then show ?thesis using gets e fs r' by blast
qed

theorem single_part_result_witness:
  "real_extract (example_host page_full vi_single) example_url = ([], Inr result_single)
   \<and> vi_durl vi_single = Val [durl_a]
   \<and> dict_get result_single ''id'' = Some (PStr ''1074402'')
   \<and> dict_get result_single ''_type'' = None"
proof -
  have d: "vi_durl vi_single = Val [durl_a]" by (simp add: vi_single_def)
  have run: "real_extract (example_host page_full vi_single) example_url = ([], Inr result_single)"
    unfolding result_single_def by (rule example_run_single)
  from single_part_result [OF example_match_id example_download_webpage
      example_embedded_id(1) example_download_json d run]
  show ?thesis using d run by simp
qed

text \<open>
  C1 as stated fails: on a page with one record the id of the result is the video id, not
  \<^verbatim>\<open><videoId>_part0\<close>.
\<close>

theorem single_part_id_counterexample:
  "match_id example_url = Inr ''1074402''
   \<and> vi_durl vi_single = Val [durl_a]
   \<and> real_extract (example_host page_full vi_single) example_url = ([], Inr result_single)
   \<and> dict_get result_single ''id'' = Some (PStr ''1074402'')
   \<and> dict_get result_single ''id'' \<noteq> Some (PStr (''1074402'' @ ''_part0''))"
proof -
  have "real_extract (example_host page_full vi_single) example_url = ([], Inr result_single)"
    unfolding result_single_def by (rule example_run_single)
  moreover have "dict_get result_single ''id'' = Some (PStr ''1074402'')"
    by (simp add: result_single_def dict_get_def)
  ultimately show ?thesis
    by (simp add: example_match_id vi_single_def)
qed

text \<open>
  C3. When the \<^verbatim>\<open>durl\<close> array has two or more records and the extraction returns, the
  result is the collection \<^verbatim>\<open>multi_video\<close> with the video id, the title, the description
  and one entry for each record, in the order of the array; the entry at index \<open>i\<close> has the
  id \<^verbatim>\<open><videoId>_part<i+1>\<close> and the ranked formats of the record at index \<open>i\<close>.
\<close>

theorem multi_part_result:
  assumes "match_id url = Inr vid" and "download_webpage h url vid = Inr page"
    and "embedded_id page = Inr cid" and "download_json h (playurl cid) vid = Inr vi"
    and "vi_durl vi = Val ds" and "real_extract h url = (ws, Inr r)"
    and "2 \<le> length ds"
  shows "\<exists>t es. first_match [title_pattern] page = Some t
           \<and> r = [(''_type'', PStr ''multi_video''),
                  (''id'', PStr vid),
                  (''title'', PStr (clean_html h t)),
                  (''description'', str_or_none (html_search_meta h ''description'' page)),
                  (''entries'', PList (map PDict es))]
           \<and> length es = length ds
           \<and> (\<forall>i<length ds.
                 dict_get (es ! i) ''id'' = Some (PStr (vid @ ''_part'' @ str_of_nat (i + 1)))
                 \<and> (\<exists>fs. durl_formats (ds ! i) = Inr fs
                       \<and> dict_get (es ! i) ''formats'' = Some (PList (map PDict (sort_formats fs)))))"
proof -
  obtain es0 where es0: "build_entries vid 0 ds = Inr es0"
    and pr: "page_result h vid page vi es0 = (ws, Inr r)"
    using real_extract_Inr [OF assms(1-6)] by blast
  have len0: "length es0 = length ds" by (rule build_entries_length [OF es0])
  obtain t ts where t: "first_match [title_pattern] page = Some t" and
    r: "r = assemble vid (PStr (clean_html h t))
              (str_or_none (html_search_meta h ''description'' page))
              (with_uploader page (base_info h vid page vi (PStr (clean_html h t))
                 (str_or_none (html_search_meta h ''description'' page)) ts)) es0"
    using page_result_Inr [OF pr] by blast
  let ?info = "with_uploader page (base_info h vid page vi (PStr (clean_html h t))
                 (str_or_none (html_search_meta h ''description'' page)) ts)"
  let ?es = "renumber vid 0 (map (\<lambda>entry. dict_update entry ?info) es0)"
  have r': "r = [(''_type'', PStr ''multi_video''), (''id'', PStr vid),
                 (''title'', PStr (clean_html h t)),
                 (''description'', str_or_none (html_search_meta h ''description'' page)),
                 (''entries'', PList (map PDict ?es))]"
    unfolding r using assms(7) len0 by (simp add: assemble_def Let_def)
  have len: "length ?es = length ds" by (simp add: length_renumber len0)
  have each: "dict_get (?es ! i) ''id'' = Some (PStr (vid @ ''_part'' @ str_of_nat (i + 1)))
       \<and> (\<exists>fs. durl_formats (ds ! i) = Inr fs
             \<and> dict_get (?es ! i) ''formats'' = Some (PList (map PDict (sort_formats fs))))"
    if i: "i < length ds" for i
  proof -
    have "durl_entry vid i (ds ! i) = Inr (es0 ! i)"
      using build_entries_nth [OF es0 i] by simp
    then obtain fs where fs: "durl_formats (ds ! i) = Inr fs"
      and e_eq: "es0 ! i = [(''id'', PStr (vid @ ''_part'' @ str_of_nat i)),
                    (''duration'', float_or_none (get_field (durl_length (ds ! i))) 1000),
                    (''formats'', PList (map PDict (sort_formats fs)))]"
      using durl_entry_Inr by blast
    have nth: "?es ! i = dict_set ''id'' (PStr (vid @ ''_part'' @ str_of_nat (i + 1)))
                           (dict_update (es0 ! i) ?info)"
      using i len0 by (simp add: nth_renumber)
    have "dict_get (es0 ! i) ''formats'' = Some (PList (map PDict (sort_formats fs)))"
      unfolding e_eq by (simp add: dict_get_def)
    then have "dict_get (?es ! i) ''formats'' = Some (PList (map PDict (sort_formats fs)))"
      unfolding nth by (simp add: dict_get_set merged_get)
    moreover have "dict_get (?es ! i) ''id'' = Some (PStr (vid @ ''_part'' @ str_of_nat (i + 1)))"
      unfolding nth by (simp add: dict_get_set)
    ultimately show ?thesis using fs by blast
  qed
  show ?thesis using t r' len each by blast
qed

lemma example_page_result_multi:
  "page_result (example_host page_full vi_multi) ''1074402'' page_full vi_multi
     [[(''id'', PStr ''1074402_part0''), (''duration'', PFloat 5),
       (''formats'', PList
          [PDict [(''url'', PStr ''http://x/a.mp4''), (''filesize'', PInt 100)],
           PDict [(''url'', PStr ''http://x/a_hd.mp4''), (''preference'', PInt (- 2))],
           PDict [(''url'', PStr ''http://y/a.mp4''), (''preference'', PInt (- 3))]])],
      [(''id'', PStr ''1074402_part1''), (''duration'', PFloat 7),
       (''formats'', PList
          [PDict [(''url'', PStr ''http://x/b.mp4''), (''filesize'', PNone)]])]] =
   ([], Inr result_multi)"
  by code_simp

lemma example_run_multi:
  "real_extract (example_host page_full vi_multi) example_url = ([], Inr result_multi)"
proof -
  have "vi_durl vi_multi = Val [durl_a, durl_b]" by (simp add: vi_multi_def)
  from real_extract_fetched [OF example_match_id example_download_webpage
      example_embedded_id(1) example_download_json this]
  show ?thesis by (simp only: example_entries_multi sum.case example_page_result_multi)
qed

theorem multi_part_result_witness:
  "real_extract (example_host page_full vi_multi) example_url = ([], Inr result_multi)
   \<and> vi_durl vi_multi = Val [durl_a, durl_b]
   \<and> dict_get result_multi ''entries'' = Some (PList [PDict entry_multi_1, PDict entry_multi_2])
   \<and> dict_get entry_multi_1 ''id'' = Some (PStr ''1074402_part1'')
   \<and> dict_get entry_multi_2 ''id'' = Some (PStr ''1074402_part2'')"
proof -
  have d: "vi_durl vi_multi = Val [durl_a, durl_b]" by (simp add: vi_multi_def)
  have two: "2 \<le> length [durl_a, durl_b]" by simp
  from multi_part_result [OF example_match_id example_download_webpage
      example_embedded_id(1) example_download_json d example_run_multi two]
  have "\<exists>t. first_match [title_pattern] page_full = Some t" by blast
  then show ?thesis
    using d example_run_multi
    by (simp add: result_multi_def entry_multi_1_def entry_multi_2_def dict_get_def)
qed

text \<open>
  C2 does not hold on the code: line 149 stores the duration of \<^verbatim>\<open>info\<close>, the total
  \<^verbatim>\<open>timelength\<close> over 1000, over the duration line 120 has given to each entry. For two
  records of 5000 and 7000 milliseconds and a total of 12000, both entries of the result
  have the duration 12.
\<close>

theorem entry_duration_overwritten:
  "durl_length durl_a = Val 5000 \<and> durl_length durl_b = Val 7000
   \<and> vi_durl vi_multi = Val [durl_a, durl_b] \<and> vi_timelength vi_multi = Val 12000
   \<and> real_extract (example_host page_full vi_multi) example_url = ([], Inr result_multi)
   \<and> result_entries result_multi = [PDict entry_multi_1, PDict entry_multi_2]
   \<and> dict_get entry_multi_1 ''duration'' = Some (PFloat 12)
   \<and> dict_get entry_multi_2 ''duration'' = Some (PFloat 12)"
  using example_run_multi
  by (simp add: durl_a_def durl_b_def vi_multi_def result_entries_def result_multi_def
        entry_multi_1_def entry_multi_2_def dict_get_def)

text \<open>
  C9 does not hold on the code: line 107 subscripts \<^verbatim>\<open>durl['size']\<close>, so that a record
  without the key \<^verbatim>\<open>size\<close> raises \<^verbatim>\<open>KeyError\<close> and the extraction returns nothing.
\<close>

theorem missing_size_aborts:
  "durl_size durl_no_size = Absent
   \<and> durl_formats durl_no_size = Inl (KeyError ''size'')
   \<and> real_extract (example_host page_full vi_no_size) example_url = ([], Inl (KeyError ''size''))"
proof -
  have f: "durl_formats durl_no_size = Inl (KeyError ''size'')"
    by (simp add: durl_formats_def durl_no_size_def)
  have "vi_durl vi_no_size = Val [durl_no_size]" by (simp add: vi_no_size_def)
  from real_extract_fetched [OF example_match_id example_download_webpage
      example_embedded_id(1) example_download_json this]
  have "real_extract (example_host page_full vi_no_size) example_url = ([], Inl (KeyError ''size''))"
    by (simp add: durl_entry_def f)
  then show ?thesis using f by (simp add: durl_no_size_def)
qed

text \<open>
  C8. On a page where the pattern of the upload time matches nowhere, and where everything
  else is there (the player parameters with a \<^verbatim>\<open>cid\<close>, the answer of the stream API with
  well-formed records, the title), the extraction returns a result and emits the warning
  for \<^verbatim>\<open>upload time\<close>: the timestamp of every entry of the result is \<^verbatim>\<open>None\<close>.
\<close>

theorem missing_upload_time:
  assumes "match_id url = Inr vid" and "download_webpage h url vid = Inr page"
    and "embedded_id page = Inr cid" and "download_json h (playurl cid) vid = Inr vi"
    and "vi_durl vi = Val ds" and "build_entries vid 0 ds = Inr es"
    and "first_match [title_pattern] page = Some t"
    and "re_search time_pattern page = None"
  shows "\<exists>r. real_extract h url = ([UnableToExtract ''upload time''], Inr r)
           \<and> length (result_entries r) = length ds
           \<and> (\<forall>e\<in>set (result_entries r). \<exists>d. e = PDict d \<and> dict_get d ''timestamp'' = Some PNone)
           \<and> (dict_get r ''timestamp'' = None \<or> dict_get r ''timestamp'' = Some PNone)"
proof -
  have no_time: "first_match [time_pattern] page = None"
    using assms(8) by simp
  define T where "T = PStr (clean_html h t)"
  define D where "D = str_or_none (html_search_meta h ''description'' page)"
  define info where "info = with_uploader page (base_info h vid page vi T D PNone)"
  define r where "r = assemble vid T D info es"
  have pr: "page_result h vid page vi es = ([UnableToExtract ''upload time''], Inr r)"
    unfolding page_result_title [OF assms(7)] no_time r_def info_def T_def D_def
    by (simp add: unified_timestamp_def)
  have run: "real_extract h url = ([UnableToExtract ''upload time''], Inr r)"
    unfolding real_extract_fetched [OF assms(1-5)] assms(6) using pr by simp
  have len: "length es = length ds" by (rule build_entries_length [OF assms(6)])
  have merged_ts: "dict_get (dict_update e info) ''timestamp'' = Some PNone" for e
    unfolding info_def by (rule merged_get(2))
  have merged_type: "dict_get (dict_update e info) ''_type'' = dict_get e ''_type''" for e
    unfolding info_def by (rule merged_get(5))
  have goal: "length (result_entries r) = length ds
      \<and> (\<forall>e\<in>set (result_entries r). \<exists>d. e = PDict d \<and> dict_get d ''timestamp'' = Some PNone)
      \<and> (dict_get r ''timestamp'' = None \<or> dict_get r ''timestamp'' = Some PNone)"
  proof (cases "length es = 1")
    case True
    then obtain e where e: "es = [e]" by (cases es) simp_all
    have "0 < length ds" using len True by (cases ds) auto
    then have "durl_entry vid (0 + 0) (ds ! 0) = Inr (es ! 0)"
      by (rule build_entries_nth [OF assms(6)])
    then have "durl_entry vid 0 (ds ! 0) = Inr e" using e by simp
    then obtain fs where "e = [(''id'', PStr (vid @ ''_part'' @ str_of_nat 0)),
               (''duration'', float_or_none (get_field (durl_length (ds ! 0))) 1000),
               (''formats'', PList (map PDict (sort_formats fs)))]"
      using durl_entry_Inr by blast
    then have type: "dict_get e ''_type'' = None" by (simp add: dict_get_def)
    have r: "r = dict_update e info" by (simp add: r_def assemble_def e)
    have "dict_get r ''_type'' = None" unfolding r merged_type by (rule type)
    then have ent: "result_entries r = [PDict r]" by (simp add: result_entries_def)
    have ts: "dict_get r ''timestamp'' = Some PNone" unfolding r by (rule merged_ts)
    show ?thesis unfolding ent using ts len True by simp
  next
    case False
    define es' where "es' = renumber vid 0 (map (\<lambda>entry. dict_update entry info) es)"
    have r: "r = [(''_type'', PStr ''multi_video''), (''id'', PStr vid), (''title'', T),
                  (''description'', D), (''entries'', PList (map PDict es'))]"
      using False by (simp add: r_def es'_def assemble_def Let_def)
    have ent: "result_entries r = map PDict es'"
      unfolding r by (simp add: result_entries_def dict_get_def)
    have len': "length es' = length es" by (simp add: es'_def length_renumber)
    have each: "dict_get (es' ! i) ''timestamp'' = Some PNone" if "i < length es'" for i
    proof -
      have "es' ! i = dict_set ''id'' (PStr (vid @ ''_part'' @ str_of_nat (0 + i + 1)))
                        (dict_update (es ! i) info)"
        unfolding es'_def using that len' by (simp add: nth_renumber)
      then show ?thesis by (simp add: dict_get_set merged_ts)
    qed
    have all: "\<forall>e\<in>set (map PDict es'). \<exists>d. e = PDict d \<and> dict_get d ''timestamp'' = Some PNone"
    proof
      fix e assume "e \<in> set (map PDict es')"
      then obtain d where d: "d \<in> set es'" "e = PDict d" by auto
      then obtain i where "i < length es'" "es' ! i = d" by (meson in_set_conv_nth)
      then have "dict_get d ''timestamp'' = Some PNone" using each by blast
      then show "\<exists>d. e = PDict d \<and> dict_get d ''timestamp'' = Some PNone" using d by blast
    qed
    have "dict_get r ''timestamp'' = None" unfolding r by (simp add: dict_get_def)
    then show ?thesis unfolding ent using all len len' by simp
  qed
  show ?thesis
    by (rule exI [of _ r]) (use run goal in blast)
qed

lemma example_no_time:
  "re_search time_pattern page_no_time = None"
  by code_simp

theorem missing_upload_time_witness:
  "re_search time_pattern page_no_time = None
   \<and> real_extract (example_host page_no_time vi_single) example_url =
       ([UnableToExtract ''upload time''], Inr result_no_time)
   \<and> dict_get result_no_time ''timestamp'' = Some PNone"
proof -
  have d: "vi_durl vi_single = Val [durl_a]" by (simp add: vi_single_def)
  from missing_upload_time [OF example_match_id example_download_webpage
      example_embedded_id(2) example_download_json d example_entries_single
      example_title(2) example_no_time]
  obtain r where r: "real_extract (example_host page_no_time vi_single) example_url =
       ([UnableToExtract ''upload time''], Inr r)" by blast
  have "page_result (example_host page_no_time vi_single) ''1074402'' page_no_time vi_single
     [[(''id'', PStr ''1074402_part0''), (''duration'', PFloat 5),
       (''formats'', PList
          [PDict [(''url'', PStr ''http://x/a.mp4''), (''filesize'', PInt 100)],
           PDict [(''url'', PStr ''http://x/a_hd.mp4''), (''preference'', PInt (- 2))],
           PDict [(''url'', PStr ''http://y/a.mp4''), (''preference'', PInt (- 3))]])]] =
     ([UnableToExtract ''upload time''], Inr result_no_time)"
    by code_simp
  then have "real_extract (example_host page_no_time vi_single) example_url =
       ([UnableToExtract ''upload time''], Inr result_no_time)"
    by (simp only: real_extract_fetched [OF example_match_id example_download_webpage
      example_embedded_id(2) example_download_json d] example_entries_single sum.case)
  then have "r = result_no_time" using r by simp
  then show ?thesis using r example_no_time by (simp add: result_no_time_def dict_get_def)
qed

lemma real_extract_no_id:
  assumes "match_id url = Inr vid" and "download_webpage h url vid = Inr page"
    and "embedded_id page = Inl e"
  shows "real_extract h url = ([], Inl e)"
  using assms by (simp add: real_extract_def)

text \<open>
  C7. The embedded id is searched with pattern A first and with pattern B only when A matches
  nowhere; the first group of the match is parsed as a query string and the first value of
  \<^verbatim>\<open>cid\<close> is taken. When neither pattern matches anywhere in the page, the extraction
  fails with the "not found" error for \<^verbatim>\<open>player parameters\<close> and returns no result.
\<close>

theorem embedded_id_patterns:
  "embedded_id page =
     (case re_search player_pattern_A page of
        Some gs \<Rightarrow> first_cid (hd gs)
      | None \<Rightarrow>
         (case re_search player_pattern_B page of
            Some gs \<Rightarrow> first_cid (hd gs)
          | None \<Rightarrow> Inl (RegexNotFoundError ''player parameters'')))
   \<and> (map_of (compat_parse_qs q) ''cid'' = Some (v # vs) \<longrightarrow> first_cid q = Inr v)
   \<and> (re_search player_pattern_A page = None \<and> re_search player_pattern_B page = None \<longrightarrow>
        match_id url = Inr vid \<longrightarrow> download_webpage h url vid = Inr page \<longrightarrow>
        real_extract h url = ([], Inl (RegexNotFoundError ''player parameters'')))"
proof -
  have cases: "embedded_id page =
     (case re_search player_pattern_A page of
        Some gs \<Rightarrow> first_cid (hd gs)
      | None \<Rightarrow>
         (case re_search player_pattern_B page of
            Some gs \<Rightarrow> first_cid (hd gs)
          | None \<Rightarrow> Inl (RegexNotFoundError ''player parameters'')))"
    unfolding embedded_id_cases first_match_players by (simp split: option.splits)
  have "real_extract h url = ([], Inl (RegexNotFoundError ''player parameters''))"
    if "re_search player_pattern_A page = None" "re_search player_pattern_B page = None"
      "match_id url = Inr vid" "download_webpage h url vid = Inr page"
  proof -
    have "embedded_id page = Inl (RegexNotFoundError ''player parameters'')"
      using that(1,2) by (simp add: cases)
    then show ?thesis by (rule real_extract_no_id [OF that(3,4)])
  qed
  then show ?thesis using cases by (simp add: first_cid_def)
qed

lemma example_no_player:
  "re_search player_pattern_A page_no_player = None"
  "re_search player_pattern_B page_no_player = None"
  by code_simp+

lemma example_iframe:
  "re_search player_pattern_A page_iframe = None"
  "re_search player_pattern_B page_iframe = Some [''cid=99&aid=3'']"
  "first_cid ''cid=99&aid=3'' = Inr ''99''"
  by code_simp+

theorem embedded_id_patterns_witness:
  "re_search player_pattern_A page_no_player = None
   \<and> re_search player_pattern_B page_no_player = None
   \<and> real_extract (example_host page_no_player vi_single) example_url =
       ([], Inl (RegexNotFoundError ''player parameters''))
   \<and> re_search player_pattern_A page_iframe = None
   \<and> re_search player_pattern_B page_iframe = Some [''cid=99&aid=3'']
   \<and> embedded_id page_iframe = Inr ''99''"
proof -
  have "real_extract (example_host page_no_player vi_single) example_url =
       ([], Inl (RegexNotFoundError ''player parameters''))"
    using embedded_id_patterns [of page_no_player _ _ _ example_url "''1074402''"
        "example_host page_no_player vi_single"]
      example_no_player example_match_id example_download_webpage
    by simp
  moreover have "embedded_id page_iframe = Inr ''99''"
    using embedded_id_patterns [of page_iframe] example_iframe by simp
  ultimately show ?thesis using example_no_player example_iframe by simp
qed

lemma example_no_cid:
  "re_search player_pattern_A page_no_cid = Some [''aid=1074402'']"
  "compat_parse_qs ''aid=1074402'' = [(''aid'', [''1074402''])]"
  by code_simp+

text \<open>
  C10. There is a page on which pattern A matches and the matched query string has no
  \<^verbatim>\<open>cid\<close>: there the embedded id fails with \<^verbatim>\<open>KeyError\<close>, not with the "not found" error.
  In general, once one of the two patterns has matched, the step succeeds exactly when the
  parsed query string has at least one value for \<^verbatim>\<open>cid\<close>, it never gives the "not found"
  error, and its \<^verbatim>\<open>KeyError\<close> ends the whole extraction.
\<close>

theorem embedded_id_unguarded_lookup:
  "(\<exists>page gs. re_search player_pattern_A page = Some gs
       \<and> map_of (compat_parse_qs (hd gs)) ''cid'' = None
       \<and> embedded_id page = Inl (KeyError ''cid''))
   \<and> (re_search player_pattern_A page = Some gs
        \<or> re_search player_pattern_A page = None \<and> re_search player_pattern_B page = Some gs \<longrightarrow>
        (map_of (compat_parse_qs (hd gs)) ''cid'' = None \<longrightarrow> embedded_id page = Inl (KeyError ''cid''))
        \<and> (map_of (compat_parse_qs (hd gs)) ''cid'' = Some [] \<longrightarrow> embedded_id page = Inl IndexError)
        \<and> ((\<exists>c. embedded_id page = Inr c) \<longleftrightarrow>
             (\<exists>v vs. map_of (compat_parse_qs (hd gs)) ''cid'' = Some (v # vs)))
        \<and> embedded_id page \<noteq> Inl (RegexNotFoundError ''player parameters''))
   \<and> (match_id url = Inr vid \<longrightarrow> download_webpage h url vid = Inr page \<longrightarrow>
        embedded_id page = Inl (KeyError ''cid'') \<longrightarrow>
        real_extract h url = ([], Inl (KeyError ''cid'')))"
proof -
  have matched: "embedded_id p = first_cid (hd g)"
    if "re_search player_pattern_A p = Some g
        \<or> re_search player_pattern_A p = None \<and> re_search player_pattern_B p = Some g" for p g
    unfolding embedded_id_cases first_match_players using that by auto
  have "embedded_id page_no_cid = Inl (KeyError ''cid'')"
    using matched [of page_no_cid "[''aid=1074402'']"] example_no_cid
    by (simp add: first_cid_def)
  then have ex: "\<exists>page gs. re_search player_pattern_A page = Some gs
       \<and> map_of (compat_parse_qs (hd gs)) ''cid'' = None
       \<and> embedded_id page = Inl (KeyError ''cid'')"
    using example_no_cid by (intro exI [of _ page_no_cid] exI [of _ "[''aid=1074402'']"]) simp
  have gen: "(map_of (compat_parse_qs (hd gs)) ''cid'' = None \<longrightarrow> embedded_id page = Inl (KeyError ''cid''))
        \<and> (map_of (compat_parse_qs (hd gs)) ''cid'' = Some [] \<longrightarrow> embedded_id page = Inl IndexError)
        \<and> ((\<exists>c. embedded_id page = Inr c) \<longleftrightarrow>
             (\<exists>v vs. map_of (compat_parse_qs (hd gs)) ''cid'' = Some (v # vs)))
        \<and> embedded_id page \<noteq> Inl (RegexNotFoundError ''player parameters'')"
    if "re_search player_pattern_A page = Some gs
        \<or> re_search player_pattern_A page = None \<and> re_search player_pattern_B page = Some gs"
    unfolding matched [OF that] first_cid_def
    by (auto split: option.splits list.splits)
  show ?thesis
    using ex gen real_extract_no_id by blast
qed

theorem embedded_id_unguarded_lookup_witness:
  "re_search player_pattern_A page_no_cid = Some [''aid=1074402'']
   \<and> compat_parse_qs ''aid=1074402'' = [(''aid'', [''1074402''])]
   \<and> embedded_id page_no_cid = Inl (KeyError ''cid'')
   \<and> real_extract (example_host page_no_cid vi_single) example_url = ([], Inl (KeyError ''cid''))"
proof -
  note inst = embedded_id_unguarded_lookup [of page_no_cid "[''aid=1074402'']" example_url
      "''1074402''" "example_host page_no_cid vi_single"]
  have e: "embedded_id page_no_cid = Inl (KeyError ''cid'')"
    using inst example_no_cid by simp
  then have "real_extract (example_host page_no_cid vi_single) example_url = ([], Inl (KeyError ''cid''))"
    using inst example_match_id example_download_webpage by simp
  then show ?thesis using e example_no_cid by simp
qed

section \<open>The signed request\<close>

text \<open>The model of MD5 on two messages of the test suite of RFC 1321.\<close>

lemma md5_test_suite:
  "hexdigest (md5 []) = ''d41d8cd98f00b204e9800998ecf8427e''"
  "hexdigest (md5 (encode_utf8 ''abc'')) = ''900150983cd24fb0d6963f7d28e17f72''"
  by code_simp+

lemma html_search_regex_download_json:
  "html_search_regex (h\<lparr>download_json := f\<rparr>) p s name fatal = html_search_regex h p s name fatal"
  by (simp add: html_search_regex_def cong: sum.case_cong option.case_cong prod.case_cong)

lemma page_result_download_json:
  "page_result (h\<lparr>download_json := f\<rparr>) vid page vi es = page_result h vid page vi es"
  by (simp add: page_result_def html_search_regex_download_json base_info_def
        unified_timestamp_def Let_def cong: sum.case_cong option.case_cong prod.case_cong)

lemma example_playurl: "playurl ''12345'' = signed_url"
  by code_simp

text \<open>
  C4. The payload is \<^verbatim>\<open>appkey=<key>&cid=<cid>&otype=json&quality=2&type=mp4\<close>, with the
  keys in this order; the signature is the MD5 digest, as 32 lowercase hexadecimal digits, of
  the UTF-8 bytes of the payload followed by the secret, and as a function of the payload it
  depends on nothing else; the address requested is the payload followed by
  \<^verbatim>\<open>&sign=<signature>\<close>, and the extraction reads the stream API at this address only.
\<close>

theorem signed_request:
  "payload_of cid = ''appkey=6f90a59ac58a4123&cid='' @ cid @ ''&otype=json&quality=2&type=mp4''
   \<and> sign_of payload =
       hexdigest (md5 (encode_utf8 (payload @ ''0bfd84cc3940035173f35e6777508326'')))
   \<and> length (sign_of payload) = 32
   \<and> set (sign_of payload) \<subseteq> set ''0123456789abcdef''
   \<and> playurl cid =
       ''http://interface.bilibili.com/playurl?'' @ payload_of cid @ ''&sign=''
         @ sign_of (payload_of cid)
   \<and> (match_id url = Inr vid \<longrightarrow> download_webpage h url vid = Inr page \<longrightarrow>
        embedded_id page = Inr cid \<longrightarrow>
        f (playurl cid) vid = download_json h (playurl cid) vid \<longrightarrow>
        real_extract (h\<lparr>download_json := f\<rparr>) url = real_extract h url)"
proof -
  have payload: "payload_of cid =
      ''appkey=6f90a59ac58a4123&cid='' @ cid @ ''&otype=json&quality=2&type=mp4''"
    by (simp add: payload_of_def APP_KEY_def)
  have sign: "sign_of payload =
      hexdigest (md5 (encode_utf8 (payload @ ''0bfd84cc3940035173f35e6777508326'')))"
    by (simp add: sign_of_def BILIBILI_KEY_def)
  have len: "length (sign_of payload) = 32"
    by (simp add: sign_of_def length_hexdigest length_md5)
  have hex: "set (sign_of payload) \<subseteq> set ''0123456789abcdef''"
    unfolding sign_of_def by (rule set_hexdigest)
  have url: "playurl cid =
      ''http://interface.bilibili.com/playurl?'' @ payload_of cid @ ''&sign=''
        @ sign_of (payload_of cid)"
    by (simp add: playurl_def)
  have same: "real_extract (h\<lparr>download_json := f\<rparr>) url = real_extract h url"
    if "match_id url = Inr vid" "download_webpage h url vid = Inr page"
      "embedded_id page = Inr cid" "f (playurl cid) vid = download_json h (playurl cid) vid"
    using that
    by (simp add: real_extract_def page_result_download_json
          cong: sum.case_cong option.case_cong)
  show ?thesis
    using payload sign len hex url same by blast
qed

theorem signed_request_witness:
  "playurl ''12345'' = signed_url
   \<and> length (sign_of (payload_of ''12345'')) = 32
   \<and> real_extract
        ((example_host page_full vi_single)\<lparr>download_json := serve_json_at signed_url vi_single\<rparr>)
        example_url = ([], Inr result_single)"
proof -
  have f: "serve_json_at signed_url vi_single (playurl ''12345'') ''1074402'' =
           download_json (example_host page_full vi_single) (playurl ''12345'') ''1074402''"
    by (simp add: example_playurl example_download_json)
  note inst = signed_request [where cid = "''12345''" and payload = "payload_of ''12345''"
      and url = example_url and vid = "''1074402''" and h = "example_host page_full vi_single"
      and page = page_full and f = "serve_json_at signed_url vi_single"]
  have "real_extract
        ((example_host page_full vi_single)\<lparr>download_json := serve_json_at signed_url vi_single\<rparr>)
        example_url = real_extract (example_host page_full vi_single) example_url"
    using inst example_match_id example_download_webpage example_embedded_id(1) f by blast
  moreover have "length (sign_of (payload_of ''12345'')) = 32"
    using inst by blast
  ultimately show ?thesis
    using example_run_single example_playurl by (simp add: result_single_def)
qed

end
